theory Spec2Isabelle
  imports Main "HOL-Library.Sublist" "HOL-Library.Word"
begin

section \<open>Data model\<close>

text \<open>
  Go strings are byte sequences and are modelled as \<open>string\<close> (a list of \<open>char\<close>).
  Go \<open>int\<close> values that only count or index are modelled as \<open>int\<close>; the places where
  64-bit arithmetic can wrap (durations in nanoseconds) are written with \<open>64 word\<close>.
  A \<open>time.Time\<close> is the number of nanoseconds since the epoch.
\<close>

text \<open>\<open>cache.Package\<close>\<close>

record Package =
  Name :: string
  ImportPath :: string
  Description :: string
  Version :: string
  IsInstalled :: bool

text \<open>\<open>cache.CacheEntry\<close>\<close>

record CacheEntry =
  Query :: string
  Results :: "Package list"
  Timestamp :: int

text \<open>\<open>history.ActionType\<close> and \<open>history.Entry\<close>\<close>

datatype ActionType = ActionViewed | ActionInstalled

record Entry =
  Timestamp :: int
  Package :: string
  ImportPath :: string
  Action :: ActionType

text \<open>
  A line of the history file, as \<open>readEntries\<close> sees it: a line that \<open>json.Unmarshal\<close>
  decodes to an entry; a line that is skipped (empty, or not decodable); a line longer
  than the 64 KB token limit of \<open>bufio.Scanner\<close>, on which the scan stops with an error.
\<close>

datatype Line = JSONLine Entry | SkippedLine | LongLine

text \<open>
  \<open>history.History\<close>. The Go struct holds the path of the backing file; the model holds
  the lines of that file, the oldest first. \<open>lineTooLong entry\<close> tells whether the JSON line
  that \<open>writeEntries\<close> writes for the entry exceeds the token limit of the scanner: the
  length of the encoding is a parameter. Other failures of the file system are outside
  the model.
\<close>

record History =
  maxEntries :: int
  fileLines :: "Line list"
  lineTooLong :: "Entry \<Rightarrow> bool"

text \<open>The error of \<open>readEntries\<close> when the scanner fails.\<close>

datatype HistoryError = ErrReadHistory

text \<open>Run-time panics of the Go code are values.\<close>

datatype panic = IndexOutOfRange | SliceBoundsOutOfRange

section \<open>JSON encoding\<close>

text \<open>
  The cache and the history store their records with \<open>encoding/json\<close>. Its encoder
  writes a string coerced to valid UTF-8: it walks the string with
  \<open>utf8.DecodeRuneInString\<close> and writes the replacement rune U+FFFD for every byte that
  does not start a valid encoding; the decoder gives back the coerced string. A
  \<open>time.Time\<close> is written in RFC 3339 with nanoseconds and read back unchanged; the
  encoder returns an error for a year outside 0 to 9999.
\<close>

definition isContinuation :: "char \<Rightarrow> bool" where
  "isContinuation c \<longleftrightarrow> (128::nat) \<le> of_char c \<and> (of_char c :: nat) \<le> 191"

text \<open>
  The width of the valid UTF-8 encoding at the front of a string, as
  \<open>utf8.DecodeRuneInString\<close> finds it; 0 when there is none (\<open>RuneError\<close> of width 1).
\<close>

fun DecodeRuneSize :: "string \<Rightarrow> nat" where
  "DecodeRuneSize [] = 0"
| "DecodeRuneSize (c # cs) =
     (let b = (of_char c :: nat) in
      if b < 128 then 1
      else if 194 \<le> b \<and> b \<le> 223
      then (case cs of
              c1 # rest \<Rightarrow> if isContinuation c1 then 2 else 0
            | [] \<Rightarrow> 0)
      else if 224 \<le> b \<and> b \<le> 239
      then (case cs of
              c1 # c2 # rest \<Rightarrow>
                if (if b = 224 then 160 else 128) \<le> (of_char c1 :: nat)
                   \<and> (of_char c1 :: nat) \<le> (if b = 237 then 159 else 191)
                   \<and> isContinuation c2
                then 3 else 0
            | _ \<Rightarrow> 0)
      else if 240 \<le> b \<and> b \<le> 244
      then (case cs of
              c1 # c2 # c3 # rest \<Rightarrow>
                if (if b = 240 then 144 else 128) \<le> (of_char c1 :: nat)
                   \<and> (of_char c1 :: nat) \<le> (if b = 244 then 143 else 191)
                   \<and> isContinuation c2 \<and> isContinuation c3
                then 4 else 0
            | _ \<Rightarrow> 0)
      else 0)"

text \<open>A string after encoding and decoding: every invalid byte has become U+FFFD.\<close>

fun toValidUTF8 :: "string \<Rightarrow> string" where
  "toValidUTF8 [] = []"
| "toValidUTF8 (c # cs) =
     (let sz = DecodeRuneSize (c # cs) in
      if sz = 0 then [CHR 0xEF, CHR 0xBF, CHR 0xBD] @ toValidUTF8 cs
      else c # take (sz - 1) cs @ toValidUTF8 (drop (sz - 1) cs))"

text \<open>\<open>utf8.ValidString\<close>\<close>

fun ValidString :: "string \<Rightarrow> bool" where
  "ValidString [] = True"
| "ValidString (c # cs) =
     (let sz = DecodeRuneSize (c # cs) in
      sz \<noteq> 0 \<and> ValidString (drop (sz - 1) cs))"

text \<open>The times whose year is from 0 to 9999, in nanoseconds since the epoch.\<close>

definition marshalableTime :: "int \<Rightarrow> bool" where
  "marshalableTime t \<longleftrightarrow> - 62167219200000000000 \<le> t \<and> t < 253402300800000000000"

text \<open>A package, a cache entry and a history entry after encoding and decoding.\<close>

definition jsonPackage :: "Package \<Rightarrow> Package" where
  "jsonPackage pkg =
     pkg\<lparr>Name := toValidUTF8 (Name pkg),
         Package.ImportPath := toValidUTF8 (Package.ImportPath pkg),
         Description := toValidUTF8 (Description pkg),
         Version := toValidUTF8 (Version pkg)\<rparr>"

definition jsonCacheEntry :: "CacheEntry \<Rightarrow> CacheEntry" where
  "jsonCacheEntry entry =
     \<lparr>Query = toValidUTF8 (Query entry), Results = map jsonPackage (Results entry),
      CacheEntry.Timestamp = CacheEntry.Timestamp entry\<rparr>"

definition jsonEntry :: "Entry \<Rightarrow> Entry" where
  "jsonEntry entry =
     entry\<lparr>Package := toValidUTF8 (Package entry),
           Entry.ImportPath := toValidUTF8 (Entry.ImportPath entry)\<rparr>"

text \<open>A package all of whose strings are valid UTF-8.\<close>

definition ValidPackage :: "Package \<Rightarrow> bool" where
  "ValidPackage pkg \<longleftrightarrow>
     ValidString (Name pkg) \<and> ValidString (Package.ImportPath pkg)
     \<and> ValidString (Description pkg) \<and> ValidString (Version pkg)"

section \<open>History\<close>

text \<open>\<open>time.Hour\<close> in nanoseconds, and \<open>time.Since\<close>, whose result saturates at the
  ends of the 64-bit \<open>Duration\<close> range.\<close>

definition Hour :: int where
  "Hour = 3600000000000"

definition Since :: "int \<Rightarrow> int \<Rightarrow> int" where
  "Since now t = max (- (2 ^ 63)) (min (2 ^ 63 - 1) (now - t))"

text \<open>
  \<open>contains\<close>, the recursive helper of \<open>History.Search\<close>:
  \<^verbatim>\<open>len(substr) > 0 && len(s) >= len(substr) &&
    (s == substr || contains(s[1:], substr) || contains(s[:len(s)-1], substr))\<close>
\<close>

function contains :: "string \<Rightarrow> string \<Rightarrow> bool" where
  "contains s substr =
     (if length substr > 0 \<and> length s \<ge> length substr
      then s = substr \<or> contains (tl s) substr \<or> contains (butlast s) substr
      else False)"
  by pat_completeness auto
termination
  by (relation "measure (\<lambda>(s, substr). length s)")
     (auto simp flip: length_greater_0_conv)

declare contains.simps [simp del]

text \<open>The loop of \<open>History.Search\<close> over the entries read, appending to \<open>matches\<close>.\<close>

fun SearchLoop :: "Entry list \<Rightarrow> string \<Rightarrow> Entry list \<Rightarrow> Entry list" where
  "SearchLoop [] query matches = matches"
| "SearchLoop (entry # rest) query matches =
     (if contains (Package entry) query \<or> contains (Entry.ImportPath entry) query
      then SearchLoop rest query (matches @ [entry])
      else SearchLoop rest query matches)"

text \<open>\<open>History.readEntries\<close>: the loop of the scanner, then \<open>scanner.Err()\<close>.\<close>

fun readEntriesLoop :: "Line list \<Rightarrow> Entry list \<Rightarrow> HistoryError + Entry list" where
  "readEntriesLoop [] entries = Inr entries"
| "readEntriesLoop (JSONLine entry # rest) entries = readEntriesLoop rest (entries @ [entry])"
| "readEntriesLoop (SkippedLine # rest) entries = readEntriesLoop rest entries"
| "readEntriesLoop (LongLine # rest) entries = Inl ErrReadHistory"

definition readEntries :: "History \<Rightarrow> HistoryError + Entry list" where
  "readEntries h = readEntriesLoop (fileLines h) []"

text \<open>
  \<open>History.writeEntries\<close>: an entry that \<open>json.Marshal\<close> refuses is left out; the others
  are written one per line, and the new lines replace the file.
\<close>

fun writeEntriesLoop :: "(Entry \<Rightarrow> bool) \<Rightarrow> Entry list \<Rightarrow> Line list \<Rightarrow> Line list" where
  "writeEntriesLoop tooLong [] out = out"
| "writeEntriesLoop tooLong (entry # rest) out =
     (if \<not> marshalableTime (Entry.Timestamp entry) then writeEntriesLoop tooLong rest out
      else writeEntriesLoop tooLong rest
             (out @ [if tooLong entry then LongLine else JSONLine (jsonEntry entry)]))"

definition writeEntries :: "History \<Rightarrow> Entry list \<Rightarrow> History" where
  "writeEntries h entries = h\<lparr>fileLines := writeEntriesLoop (lineTooLong h) entries []\<rparr>"

text \<open>\<open>History.Search\<close>\<close>

definition History_Search :: "History \<Rightarrow> string \<Rightarrow> HistoryError + Entry list" where
  "History_Search h query =
     (case readEntries h of
        Inl err \<Rightarrow> Inl err
      | Inr entries \<Rightarrow> Inr (SearchLoop entries query []))"

text \<open>
  The reference the specification compares with: a linear scan keeping the entries
  whose name or path has the query as a contiguous substring (\<open>sublist\<close>).
\<close>

definition Search_linear_scan :: "History \<Rightarrow> string \<Rightarrow> HistoryError + Entry list" where
  "Search_linear_scan h query =
     (case readEntries h of
        Inl err \<Rightarrow> Inl err
      | Inr entries \<Rightarrow>
          Inr (filter (\<lambda>entry. sublist query (Package entry)
                          \<or> sublist query (Entry.ImportPath entry)) entries))"

text \<open>
  \<open>History.isDuplicate\<close>: false when the log cannot be read; else the scan of
  \<open>entries[start:]\<close>, \<open>start = max 0 (len - 10)\<close>.
\<close>

fun isDuplicateLoop :: "int \<Rightarrow> Entry list \<Rightarrow> string \<Rightarrow> string \<Rightarrow> ActionType \<Rightarrow> bool" where
  "isDuplicateLoop now [] packageName importPath action = False"
| "isDuplicateLoop now (entry # rest) packageName importPath action =
     (if Package entry = packageName \<and> Entry.ImportPath entry = importPath
         \<and> Action entry = action \<and> Since now (Entry.Timestamp entry) < Hour
      then True
      else isDuplicateLoop now rest packageName importPath action)"

definition isDuplicate :: "History \<Rightarrow> int \<Rightarrow> string \<Rightarrow> string \<Rightarrow> ActionType \<Rightarrow> bool" where
  "isDuplicate h now packageName importPath action =
     (case readEntries h of
        Inl err \<Rightarrow> False
      | Inr entries \<Rightarrow>
          let start = int (length entries) - 10;
              start = (if start < 0 then 0 else start)
          in isDuplicateLoop now (drop (nat start) entries) packageName importPath action)"

text \<open>
  \<open>History.Add\<close> at time \<open>now\<close>: a panic, or the error returned and the history
  afterwards. The slice \<open>entries[len(entries)-h.maxEntries:]\<close> panics when \<open>maxEntries\<close> is
  negative (its lower bound is then beyond the length).
\<close>

definition History_Add ::
  "History \<Rightarrow> int \<Rightarrow> string \<Rightarrow> string \<Rightarrow> ActionType
     \<Rightarrow> panic + (HistoryError option \<times> History)" where
  "History_Add h now packageName importPath action =
     (if isDuplicate h now packageName importPath action then Inr (None, h)
      else
        let entry = \<lparr>Timestamp = now, Package = packageName, ImportPath = importPath,
                     Action = action\<rparr>
        in case readEntries h of
             Inl err \<Rightarrow> Inr (Some err, h)
           | Inr entries \<Rightarrow>
               let es = entries @ [entry]
               in if int (length es) > maxEntries h
                  then (if maxEntries h < 0 then Inl SliceBoundsOutOfRange
                        else Inr (None,
                               writeEntries h (drop (nat (int (length es) - maxEntries h)) es)))
                  else Inr (None, writeEntries h es))"

text \<open>\<open>History.Clear\<close> truncates the backing file.\<close>

definition History_Clear :: "History \<Rightarrow> History" where
  "History_Clear h = h\<lparr>fileLines := []\<rparr>"

text \<open>
  An entry that \<open>writeEntries\<close> stores as it is: its time can be encoded, its line fits
  the scanner, its name and path are valid UTF-8.
\<close>

definition storable :: "History \<Rightarrow> Entry \<Rightarrow> bool" where
  "storable h entry \<longleftrightarrow>
     marshalableTime (Entry.Timestamp entry) \<and> \<not> lineTooLong h entry
     \<and> ValidString (Package entry) \<and> ValidString (Entry.ImportPath entry)"

text \<open>\<open>Add\<close> called three times in succession with the same arguments.\<close>

definition History_Add_thrice ::
  "History \<Rightarrow> int \<Rightarrow> int \<Rightarrow> int \<Rightarrow> string \<Rightarrow> string \<Rightarrow> ActionType \<Rightarrow> panic + History" where
  "History_Add_thrice h t1 t2 t3 packageName importPath action =
     (case History_Add h t1 packageName importPath action of
        Inl p \<Rightarrow> Inl p
      | Inr (err1, h1) \<Rightarrow>
          (case History_Add h1 t2 packageName importPath action of
             Inl p \<Rightarrow> Inl p
           | Inr (err2, h2) \<Rightarrow>
               (case History_Add h2 t3 packageName importPath action of
                  Inl p \<Rightarrow> Inl p
                | Inr (err3, h3) \<Rightarrow> Inr h3)))"

section \<open>Install command\<close>

text \<open>\<open>strings.Join\<close>\<close>

fun Join :: "string list \<Rightarrow> string \<Rightarrow> string" where
  "Join [] sep = []"
| "Join [x] sep = x"
| "Join (x # y # ys) sep = x @ sep @ Join (y # ys) sep"

text \<open>The loop of \<open>Manager.GetInstallCommand\<close>, appending to \<open>pkgs\<close>.\<close>

fun GetInstallCommandLoop :: "Package list \<Rightarrow> string list \<Rightarrow> string list" where
  "GetInstallCommandLoop [] pkgs = pkgs"
| "GetInstallCommandLoop (pkg # rest) pkgs =
     (if \<not> IsInstalled pkg
      then (if Version pkg \<noteq> []
            then GetInstallCommandLoop rest
                   (pkgs @ [Package.ImportPath pkg @ ''@'' @ Version pkg])
            else GetInstallCommandLoop rest (pkgs @ [Package.ImportPath pkg]))
      else GetInstallCommandLoop rest pkgs)"

definition GetInstallCommand :: "Package list \<Rightarrow> string" where
  "GetInstallCommand packages =
     (let pkgs = GetInstallCommandLoop packages []
      in if length pkgs = 0 then [] else ''go get '' @ Join pkgs '' '')"

section \<open>Result cache\<close>

text \<open>
  \<open>cache.Cache\<close>. The cache directory is a map from paths to files; a file is one that
  \<open>json.Unmarshal\<close> decodes to a cache entry, or one that it does not decode. The
  hex-encoded SHA-256 of the query is a parameter.
\<close>

record Cache =
  dir :: string
  ttlDays :: int

datatype File = JSONFile CacheEntry | OtherFile

type_synonym files = "string \<rightharpoonup> File"

text \<open>\<open>json.MarshalIndent\<close> and \<open>json.Unmarshal\<close> of a cache entry (\<open>None\<close> is an error).\<close>

definition MarshalIndent :: "CacheEntry \<Rightarrow> File option" where
  "MarshalIndent entry =
     (if marshalableTime (CacheEntry.Timestamp entry) then Some (JSONFile (jsonCacheEntry entry))
      else None)"

fun Unmarshal :: "File \<Rightarrow> CacheEntry option" where
  "Unmarshal (JSONFile entry) = Some entry"
| "Unmarshal OtherFile = None"

definition getFilename :: "(string \<Rightarrow> string) \<Rightarrow> string \<Rightarrow> string" where
  "getFilename sha256hex query = sha256hex query @ ''.json''"

text \<open>\<open>filepath.Join\<close> of the cache directory and a file name.\<close>

definition filepath_Join :: "string \<Rightarrow> string \<Rightarrow> string" where
  "filepath_Join d filename = d @ ''/'' @ filename"

text \<open>
  \<open>Cache.isExpired\<close>: \<open>ttl := time.Duration(c.ttlDays) * 24 * time.Hour\<close> is a product of
  64-bit integers and wraps; the test is \<open>time.Since(timestamp) > ttl\<close>.
\<close>

definition ttl :: "Cache \<Rightarrow> int" where
  "ttl c = sint ((word_of_int (ttlDays c) :: 64 word) * 24 * 3600000000000)"

definition isExpired :: "Cache \<Rightarrow> int \<Rightarrow> int \<Rightarrow> bool" where
  "isExpired c now timestamp = (Since now timestamp > ttl c)"

text \<open>\<open>Cache.Get\<close> at time \<open>now\<close>: the entry found, if any, and the directory afterwards.\<close>

definition Cache_Get ::
  "(string \<Rightarrow> string) \<Rightarrow> Cache \<Rightarrow> int \<Rightarrow> string \<Rightarrow> files \<Rightarrow> CacheEntry option \<times> files" where
  "Cache_Get sha256hex c now query fs =
     (let filename = getFilename sha256hex query;
          path = filepath_Join (dir c) filename
      in case fs path of
           None \<Rightarrow> (None, fs)
         | Some data \<Rightarrow>
             (case Unmarshal data of
                None \<Rightarrow> (None, fs)
              | Some entry \<Rightarrow>
                  if isExpired c now (CacheEntry.Timestamp entry)
                  then (None, fs(path := None))
                  else (Some entry, fs)))"

text \<open>
  \<open>Cache.Set\<close> at time \<open>now\<close>: the entry is written to \<open>path + ".tmp"\<close>, which is then
  renamed over \<open>path\<close>.
\<close>

definition Cache_Set ::
  "(string \<Rightarrow> string) \<Rightarrow> Cache \<Rightarrow> int \<Rightarrow> string \<Rightarrow> Package list \<Rightarrow> files \<Rightarrow> string + files" where
  "Cache_Set sha256hex c now query pkgs fs =
     (let entry = \<lparr>Query = query, Results = pkgs, CacheEntry.Timestamp = now\<rparr>
      in case MarshalIndent entry of
           None \<Rightarrow> Inl ''failed to marshal cache entry''
         | Some data \<Rightarrow>
             let filename = getFilename sha256hex query;
                 path = filepath_Join (dir c) filename;
                 tempPath = path @ ''.tmp'';
                 fs1 = fs(tempPath \<mapsto> data)
             in Inr ((fs1(path \<mapsto> data))(tempPath := None)))"

text \<open>
  \<open>Set\<close> at time \<open>t0\<close> followed immediately by \<open>Get\<close> at time \<open>t1\<close>, as in
  \<open>TestCacheSetAndGet\<close>.
\<close>

definition Set_then_Get ::
  "(string \<Rightarrow> string) \<Rightarrow> Cache \<Rightarrow> int \<Rightarrow> int \<Rightarrow> string \<Rightarrow> Package list \<Rightarrow> files
     \<Rightarrow> string + (CacheEntry option \<times> files)" where
  "Set_then_Get sha256hex c t0 t1 query pkgs fs =
     (case Cache_Set sha256hex c t0 query pkgs fs of
        Inl err \<Rightarrow> Inl err
      | Inr fs1 \<Rightarrow> Inr (Cache_Get sha256hex c t1 query fs1))"

section \<open>Scraper\<close>

text \<open>
  \<open>scraper.Scraper\<close>. The HTTP client, the HTML parser and the selectors that
  \<open>parseResults\<close> runs over a parsed document are parameters: \<open>clientGet url n\<close> is the
  outcome of the \<open>n\<close>-th request (from 0) that one call of \<open>Search\<close> sends.
\<close>

record Scraper =
  maxRetries :: int
  baseURL :: string

datatype 'b Response = TransportError string | HTTPResponse int 'b

datatype FetchErr = ErrTransport string | ErrStatusCode int | ErrParse string

datatype SearchError = FetchFailed int "FetchErr option"

record ('b, 'doc) Web =
  QueryEscape :: "string \<Rightarrow> string"
  clientGet :: "string \<Rightarrow> nat \<Rightarrow> 'b Response"
  NewDocumentFromReader :: "'b \<Rightarrow> string + 'doc"
  parseResults :: "'doc \<Rightarrow> Package list"

text \<open>What \<open>Search\<close> does to the outside, in order.\<close>

datatype Event = Sleep int | HttpGet string

fun isHttpGet :: "Event \<Rightarrow> bool" where
  "isHttpGet (HttpGet url) = True"
| "isHttpGet (Sleep d) = False"

definition attempts :: "Event list \<Rightarrow> nat" where
  "attempts trace = length (filter isHttpGet trace)"

text \<open>
  The back-off \<open>time.Duration(1<<uint(attempt-1)) * time.Second\<close>, in nanoseconds: a
  64-bit shift and product.
\<close>

definition backoff :: "int \<Rightarrow> int" where
  "backoff attempt = sint ((push_bit (nat (attempt - 1)) 1 :: 64 word) * 1000000000)"

text \<open>
  The retry loop of \<open>Search\<close>, from \<open>attempt\<close> on: the document (if any attempt parsed
  one), \<open>lastErr\<close> and the events.
\<close>

function SearchAttempts ::
  "('b, 'doc) Web \<Rightarrow> Scraper \<Rightarrow> string \<Rightarrow> int \<Rightarrow> FetchErr option \<Rightarrow> Event list
     \<Rightarrow> 'doc option \<times> FetchErr option \<times> Event list" where
  "SearchAttempts w s searchURL attempt lastErr trace =
     (if attempt < maxRetries s
      then
        let trace1 = (if attempt > 0 then trace @ [Sleep (backoff attempt)] else trace);
            trace2 = trace1 @ [HttpGet searchURL]
        in case clientGet w searchURL (nat attempt) of
             TransportError err \<Rightarrow>
               SearchAttempts w s searchURL (attempt + 1) (Some (ErrTransport err)) trace2
           | HTTPResponse StatusCode Body \<Rightarrow>
               if StatusCode \<noteq> 200
               then SearchAttempts w s searchURL (attempt + 1)
                      (Some (ErrStatusCode StatusCode)) trace2
               else (case NewDocumentFromReader w Body of
                       Inr doc \<Rightarrow> (Some doc, lastErr, trace2)
                     | Inl err \<Rightarrow>
                         SearchAttempts w s searchURL (attempt + 1) (Some (ErrParse err)) trace2)
      else (None, lastErr, trace))"
  by pat_completeness auto
termination
  by (relation "measure (\<lambda>(w, s, searchURL, attempt, lastErr, trace). nat (maxRetries s - attempt))")
     auto

declare SearchAttempts.simps [simp del]

text \<open>\<open>Scraper.Search\<close>: the result and the events.\<close>

definition Scraper_Search ::
  "('b, 'doc) Web \<Rightarrow> Scraper \<Rightarrow> string \<Rightarrow> (SearchError + Package list) \<times> Event list" where
  "Scraper_Search w s query =
     (if query = [] then (Inr [], [])
      else
        let searchURL = baseURL s @ ''/search?q='' @ QueryEscape w query
        in case SearchAttempts w s searchURL 0 None [] of
             (None, lastErr, trace) \<Rightarrow> (Inl (FetchFailed (maxRetries s) lastErr), trace)
           | (Some doc, lastErr, trace) \<Rightarrow> (Inr (parseResults w doc), trace))"

text \<open>
  The outcome of attempt \<open>k\<close> on its own: the parsed document, or the error that makes
  the attempt a failed one (transport error, status other than 200, parse failure).
\<close>

definition attemptOutcome :: "('b, 'doc) Web \<Rightarrow> string \<Rightarrow> nat \<Rightarrow> FetchErr + 'doc" where
  "attemptOutcome w searchURL k =
     (case clientGet w searchURL k of
        TransportError err \<Rightarrow> Inl (ErrTransport err)
      | HTTPResponse StatusCode Body \<Rightarrow>
          if StatusCode \<noteq> 200 then Inl (ErrStatusCode StatusCode)
          else (case NewDocumentFromReader w Body of
                  Inr doc \<Rightarrow> Inr doc
                | Inl err \<Rightarrow> Inl (ErrParse err)))"

text \<open>
  The events of attempts \<open>i\<close> to \<open>n - 1\<close>: every attempt after the first sleeps for its
  back-off, then sends the request.
\<close>

definition retryEvents :: "string \<Rightarrow> nat \<Rightarrow> nat \<Rightarrow> Event list" where
  "retryEvents searchURL i n =
     concat (map (\<lambda>k. (if 0 < k then [Sleep (backoff (int k))] else []) @ [HttpGet searchURL])
               [i..<n])"

section \<open>Session state machine\<close>

datatype ViewState = ViewSearch | ViewOptions | ViewInstalling | ViewCommands | ViewHelp

text \<open>
  A key message: its type, its runes and what \<open>msg.String()\<close> returns. \<open>KeyOther\<close>
  stands for every key type that \<open>handleSearchKeys\<close> has no case for.
\<close>

datatype KeyType =
  KeyCtrlC | KeyEsc | KeyUp | KeyDown | KeyTab | KeyEnter | KeyCtrlH | KeyCtrlQ
| KeyCtrlA | KeyCtrlN | KeyRunes | KeyOther

record Key =
  Type :: KeyType
  Runes :: string
  String :: string

text \<open>
  The messages \<open>Update\<close> receives: \<open>searchResultsMsg packages fromCache err\<close>,
  \<open>installProgressMsg message done\<close> (the percentage is a float and is left out),
  \<open>installErrorMsg err\<close>; \<open>OtherMsg\<close> is any message of another type.
\<close>

datatype Msg =
  WindowSizeMsg int int
| KeyMsg Key
| searchResultsMsg "Package list" bool "string option"
| installProgressMsg string bool
| installErrorMsg string
| OtherMsg

text \<open>
  The commands \<open>Update\<close> hands back: \<open>tea.Quit\<close>, and the command of \<open>debounceSearch\<close>
  that waits for the timer and then searches for the query it captured. The blink and
  spinner commands of the widgets are left out.
\<close>

datatype Cmd = Quit | debounceSearchCmd string

text \<open>
  \<open>tui.Model\<close>. \<open>searchInput\<close> is the value of the text input, \<open>selected\<close> the Go
  \<open>map[int]bool\<close>, \<open>history\<close> the log behind the \<open>*history.History\<close>. The fields used
  for rendering only (spinner, progress, recent history, installed set) are left out.
\<close>

record Model =
  viewState :: ViewState
  searchInput :: string
  packages :: "Package list"
  cursor :: int
  selected :: "int \<rightharpoonup> bool"
  message :: string
  messageType :: string
  searching :: bool
  lastQuery :: string
  fromCache :: bool
  installing :: bool
  installMessage :: string
  showHelp :: bool
  commands :: "string list"
  width :: int
  height :: int
  firstRun :: bool
  quitWithCommands :: bool
  commandsToPrint :: "string list"
  autoRun :: bool
  history :: History

text \<open>
  What \<open>Update\<close> reads from outside the model: the clock, the new value of the text
  input after \<open>textinput.Update(msg)\<close>, \<open>Manager.IsInstalled\<close>, the order in which
  \<open>range m.selected\<close> visits the keys of the map, and the error of \<open>cache.Clear()\<close>.
\<close>

record Env =
  now :: int
  searchInputUpdate :: "Msg \<Rightarrow> string \<Rightarrow> string"
  IsInstalledProbe :: "string \<Rightarrow> bool"
  rangeOrder :: "(int \<rightharpoonup> bool) \<Rightarrow> int list"
  cacheClear :: "string option"

text \<open>\<open>tui.New\<close>\<close>

definition New :: "History \<Rightarrow> Model" where
  "New h =
     \<lparr>viewState = ViewSearch, searchInput = [], packages = [], cursor = 0,
      selected = Map.empty, message = [], messageType = [], searching = False,
      lastQuery = [], fromCache = False, installing = False, installMessage = [],
      showHelp = False, commands = [], width = 80, height = 24, firstRun = False,
      quitWithCommands = False, commandsToPrint = [], autoRun = False, history = h\<rparr>"

text \<open>\<open>Manager.MarkInstalledPackages\<close>\<close>

definition MarkInstalledPackages :: "Env \<Rightarrow> Package list \<Rightarrow> Package list" where
  "MarkInstalledPackages env pkgs =
     map (\<lambda>pkg. pkg\<lparr>IsInstalled := IsInstalledProbe env (Package.ImportPath pkg)\<rparr>) pkgs"

text \<open>
  \<open>Model.getSelectedPackages\<close>: the loop over the keys in the order of the run time;
  \<open>m.packages[idx]\<close> panics on a negative index.
\<close>

fun getSelectedLoop :: "Model \<Rightarrow> int list \<Rightarrow> Package list \<Rightarrow> panic + Package list" where
  "getSelectedLoop m [] sel = Inr sel"
| "getSelectedLoop m (idx # rest) sel =
     (if selected m idx = Some True \<and> idx < int (length (packages m))
      then (if idx < 0 then Inl IndexOutOfRange
            else getSelectedLoop m rest (sel @ [packages m ! nat idx]))
      else getSelectedLoop m rest sel)"

definition getSelectedPackages :: "Env \<Rightarrow> Model \<Rightarrow> panic + Package list" where
  "getSelectedPackages env m = getSelectedLoop m (rangeOrder env (selected m)) []"

text \<open>
  The loops \<open>for _, pkg := range selected { m.history.Add(...) }\<close>; the error that \<open>Add\<close>
  returns is dropped, as the callers drop it.
\<close>

fun historyAddAll :: "History \<Rightarrow> int \<Rightarrow> Package list \<Rightarrow> ActionType \<Rightarrow> panic + History" where
  "historyAddAll h t [] action = Inr h"
| "historyAddAll h t (pkg # rest) action =
     (case History_Add h t (Name pkg) (Package.ImportPath pkg) action of
        Inl p \<Rightarrow> Inl p
      | Inr (err, h') \<Rightarrow> historyAddAll h' t rest action)"

text \<open>The loop \<open>for i := range m.packages { m.selected[i] = true }\<close>.\<close>

definition selectAll :: "Model \<Rightarrow> Model" where
  "selectAll m =
     (if length (packages m) > 0
      then m\<lparr>selected := fold (\<lambda>i sel. sel(int i \<mapsto> True)) [0..<length (packages m)] (selected m)\<rparr>
      else m)"

text \<open>The \<open>tea.KeyEnter\<close> case of \<open>handleSearchKeys\<close>, after the \<open>firstRun\<close> test.\<close>

definition handleEnter :: "Env \<Rightarrow> Model \<Rightarrow> panic + (Model \<times> Cmd option)" where
  "handleEnter env m =
     (case getSelectedPackages env m of
        Inl p \<Rightarrow> Inl p
      | Inr sel0 \<Rightarrow>
          (case (if length sel0 = 0 \<and> cursor m < int (length (packages m))
                 then (let m1 = m\<lparr>selected := (selected m)(cursor m \<mapsto> True)\<rparr>
                       in case getSelectedPackages env m1 of
                            Inl p \<Rightarrow> Inl p
                          | Inr sel1 \<Rightarrow> Inr (m1, sel1))
                 else Inr (m, sel0)) of
             Inl p \<Rightarrow> Inl p
           | Inr (m1, sel) \<Rightarrow>
               if length sel > 0
               then (case historyAddAll (history m1) (now env) sel ActionViewed of
                       Inl p \<Rightarrow> Inl p
                     | Inr h' \<Rightarrow> Inr (m1\<lparr>viewState := ViewOptions, history := h'\<rparr>, None))
               else Inr (m1, None)))"

text \<open>The \<open>tea.KeyRunes\<close> case of \<open>handleSearchKeys\<close>.\<close>

definition handleSearchRunes :: "Env \<Rightarrow> Key \<Rightarrow> Model \<Rightarrow> Model \<times> Cmd option" where
  "handleSearchRunes env msg m =
     (if length (Runes msg) = 1
      then (if Runes msg = ''Q'' then (m, Some Quit)
            else if Runes msg = ''H'' then (m\<lparr>showHelp := \<not> showHelp m\<rparr>, None)
            else if Runes msg = ''A'' then (selectAll m, None)
            else if Runes msg = ''N'' then (m\<lparr>selected := Map.empty\<rparr>, None)
            else if Runes msg = ''C''
            then (case cacheClear env of
                    None \<Rightarrow> (m\<lparr>message := ''Cache cleared successfully'',
                                messageType := ''success''\<rparr>, None)
                  | Some err \<Rightarrow> (m\<lparr>message := ''Failed to clear cache: '' @ err,
                                    messageType := ''error''\<rparr>, None))
            else (m, None))
      else (m, None))"

definition handleSearchKeys :: "Env \<Rightarrow> Key \<Rightarrow> Model \<Rightarrow> panic + (Model \<times> Cmd option)" where
  "handleSearchKeys env msg m =
     (case Type msg of
        KeyCtrlC \<Rightarrow> Inr (m, Some Quit)
      | KeyEsc \<Rightarrow>
          if searchInput m = [] then Inr (m, Some Quit)
          else Inr (m\<lparr>searchInput := [], lastQuery := [], packages := [], message := [],
                      cursor := 0\<rparr>, None)
      | KeyUp \<Rightarrow>
          Inr (if length (packages m) > 0 \<and> cursor m > 0
               then m\<lparr>cursor := cursor m - 1\<rparr> else m, None)
      | KeyDown \<Rightarrow>
          Inr (if length (packages m) > 0 \<and> cursor m < int (length (packages m)) - 1
               then m\<lparr>cursor := cursor m + 1\<rparr> else m, None)
      | KeyTab \<Rightarrow>
          Inr (if length (packages m) > 0 \<and> cursor m < int (length (packages m))
               then m\<lparr>selected := (selected m)(cursor m \<mapsto> \<not> (selected m (cursor m) = Some True))\<rparr>
               else m, None)
      | KeyEnter \<Rightarrow>
          if firstRun m then Inr (m\<lparr>firstRun := False\<rparr>, None)
          else handleEnter env m
      | KeyCtrlH \<Rightarrow> Inr (m\<lparr>showHelp := \<not> showHelp m\<rparr>, None)
      | KeyCtrlQ \<Rightarrow> Inr (m, Some Quit)
      | KeyCtrlA \<Rightarrow> Inr (selectAll m, None)
      | KeyCtrlN \<Rightarrow> Inr (m\<lparr>selected := Map.empty\<rparr>, None)
      | KeyRunes \<Rightarrow> Inr (handleSearchRunes env msg m)
      | KeyOther \<Rightarrow>
          Inr (if message m \<noteq> [] \<and> String msg \<noteq> [] then m\<lparr>message := []\<rparr> else m, None))"

definition handleOptionsKeys :: "Env \<Rightarrow> Key \<Rightarrow> Model \<Rightarrow> panic + (Model \<times> Cmd option)" where
  "handleOptionsKeys env msg m =
     (if Type msg = KeyEsc then Inr (m\<lparr>viewState := ViewSearch\<rparr>, None)
      else if Type msg = KeyRunes
      then (if Runes msg = ''g'' \<or> Runes msg = ''G''
            then (case getSelectedPackages env m of
                    Inl p \<Rightarrow> Inl p
                  | Inr sel \<Rightarrow>
                      let command = GetInstallCommand sel
                      in if command \<noteq> []
                         then Inr (m\<lparr>quitWithCommands := True, commandsToPrint := [command],
                                     autoRun := False\<rparr>, Some Quit)
                         else Inr (m\<lparr>message := ''All selected packages are already installed'',
                                     messageType := ''info'', viewState := ViewSearch\<rparr>, None))
            else if Runes msg = ''d'' \<or> Runes msg = ''D''
            then (case getSelectedPackages env m of
                    Inl p \<Rightarrow> Inl p
                  | Inr sel \<Rightarrow>
                      let command = GetInstallCommand sel
                      in if command \<noteq> []
                         then (case historyAddAll (history m) (now env) sel ActionInstalled of
                                 Inl p \<Rightarrow> Inl p
                               | Inr h' \<Rightarrow>
                                   Inr (m\<lparr>quitWithCommands := True, commandsToPrint := [command],
                                          autoRun := True, history := h'\<rparr>, Some Quit))
                         else Inr (m, None))
            else if Runes msg = ''c'' \<or> Runes msg = ''C''
            then Inr (m\<lparr>viewState := ViewSearch\<rparr>, None)
            else Inr (m, None))
      else Inr (m, None))"

definition handleCommandsKeys :: "Key \<Rightarrow> Model \<Rightarrow> Model \<times> Cmd option" where
  "handleCommandsKeys msg m =
     (if Type msg = KeyEsc \<or> Type msg = KeyEnter
      then (m\<lparr>viewState := ViewSearch, commands := []\<rparr>, None)
      else if Type msg = KeyRunes
      then (if Runes msg = ''q'' \<or> Runes msg = ''Q''
            then (m\<lparr>viewState := ViewSearch, commands := []\<rparr>, None)
            else (m, None))
      else (m, None))"

definition debounceSearch :: "Model \<Rightarrow> Model \<times> Cmd option" where
  "debounceSearch m =
     (let m1 = m\<lparr>searching := True\<rparr>;
          query = searchInput m1
      in if query = [] then (m1\<lparr>packages := [], searching := False\<rparr>, None)
         else (m1, Some (debounceSearchCmd query)))"

definition handleSearchResults :: "Package list \<Rightarrow> bool \<Rightarrow> string option \<Rightarrow> Model \<Rightarrow> Model" where
  "handleSearchResults pkgs cached err m =
     (let m1 = m\<lparr>searching := False\<rparr>
      in case err of
           Some e \<Rightarrow> m1\<lparr>message := ''Search failed: '' @ e, messageType := ''error''\<rparr>
         | None \<Rightarrow>
             let m2 = m1\<lparr>packages := pkgs, fromCache := cached, cursor := 0,
                         selected := Map.empty\<rparr>
             in if length pkgs = 0
                then m2\<lparr>message := ''No packages found'', messageType := ''info''\<rparr>
                else m2\<lparr>message := []\<rparr>)"

text \<open>A command or none, as a list to append to \<open>cmds\<close>.\<close>

fun cmdList :: "Cmd option \<Rightarrow> Cmd list" where
  "cmdList None = []"
| "cmdList (Some cmd) = [cmd]"

text \<open>
  The end of \<open>Update\<close>, after the switch on the message: in the search view the text
  input sees the message, and a changed value starts a debounced search.
\<close>

definition updateSearchInput :: "Env \<Rightarrow> Msg \<Rightarrow> Model \<Rightarrow> Cmd list \<Rightarrow> Model \<times> Cmd list" where
  "updateSearchInput env msg m cmds =
     (if viewState m = ViewSearch \<and> \<not> showHelp m \<and> \<not> installing m
      then
        let oldValue = searchInput m;
            m1 = m\<lparr>searchInput := searchInputUpdate env msg oldValue\<rparr>;
            newValue = searchInput m1
        in if newValue \<noteq> oldValue
           then (case debounceSearch (m1\<lparr>lastQuery := newValue\<rparr>) of
                   (m2, searchCmd) \<Rightarrow> (m2, cmds @ cmdList searchCmd))
           else (m1, cmds)
      else (m, cmds))"

text \<open>\<open>Model.Update\<close>: a panic, or the model and the commands.\<close>

definition Update :: "Env \<Rightarrow> Msg \<Rightarrow> Model \<Rightarrow> panic + (Model \<times> Cmd list)" where
  "Update env msg m =
     (case msg of
        WindowSizeMsg w h \<Rightarrow> Inr (updateSearchInput env msg (m\<lparr>width := w, height := h\<rparr>) [])
      | KeyMsg k \<Rightarrow>
          (case viewState m of
             ViewSearch \<Rightarrow>
               if showHelp m then Inr (m\<lparr>showHelp := False\<rparr>, [])
               else (case handleSearchKeys env k m of
                       Inl p \<Rightarrow> Inl p
                     | Inr (m1, cmd) \<Rightarrow> Inr (updateSearchInput env msg m1 (cmdList cmd)))
           | ViewOptions \<Rightarrow>
               (case handleOptionsKeys env k m of
                  Inl p \<Rightarrow> Inl p
                | Inr (m1, cmd) \<Rightarrow> Inr (updateSearchInput env msg m1 (cmdList cmd)))
           | ViewCommands \<Rightarrow>
               (case handleCommandsKeys k m of
                  (m1, cmd) \<Rightarrow> Inr (updateSearchInput env msg m1 (cmdList cmd)))
           | ViewInstalling \<Rightarrow> Inr (updateSearchInput env msg m [])
           | ViewHelp \<Rightarrow> Inr (updateSearchInput env msg m []))
      | searchResultsMsg pkgs cached err \<Rightarrow>
          Inr (updateSearchInput env msg (handleSearchResults pkgs cached err m) [])
      | installProgressMsg msgText done \<Rightarrow>
          (let m1 = m\<lparr>installMessage := msgText\<rparr>;
               m2 = (if done
                     then m1\<lparr>viewState := ViewSearch, installing := False,
                             message := ''Installation completed successfully!'',
                             messageType := ''success'', selected := Map.empty,
                             packages := MarkInstalledPackages env (packages m1)\<rparr>
                     else m1)
           in Inr (updateSearchInput env msg m2 []))
      | installErrorMsg err \<Rightarrow>
          Inr (updateSearchInput env msg
                 (m\<lparr>viewState := ViewSearch, installing := False,
                    message := ''Installation failed: '' @ err, messageType := ''error''\<rparr>) [])
      | OtherMsg \<Rightarrow> Inr (updateSearchInput env msg m []))"

text \<open>A session: \<open>Update\<close> applied to a sequence of messages, each with its environment.\<close>

fun run :: "(Env \<times> Msg) list \<Rightarrow> Model \<Rightarrow> panic + Model" where
  "run [] m = Inr m"
| "run ((env, msg) # rest) m =
     (case Update env msg m of
        Inl p \<Rightarrow> Inl p
      | Inr (m1, cmds) \<Rightarrow> run rest m1)"

text \<open>
  The invariant of the session: the cursor is not negative, and while there are results
  it is an index into them; every key of \<open>selected\<close> is not negative, and while there
  are results it is an index into them.
\<close>

definition session_inv :: "Model \<Rightarrow> bool" where
  "session_inv m \<longleftrightarrow>
     0 \<le> cursor m
     \<and> (packages m \<noteq> [] \<longrightarrow> cursor m < int (length (packages m)))
     \<and> (\<forall>i\<in>dom (selected m). 0 \<le> i \<and> (packages m \<noteq> [] \<longrightarrow> i < int (length (packages m))))"

section \<open>Example values\<close>

definition cobra :: Package where
  "cobra = \<lparr>Name = ''cobra'', ImportPath = ''github.com/spf13/cobra'', Description = [],
            Version = [], IsInstalled = False\<rparr>"

definition viper :: Package where
  "viper = \<lparr>Name = ''viper'', ImportPath = ''github.com/spf13/viper'', Description = [],
            Version = [], IsInstalled = True\<rparr>"

definition gin :: Package where
  "gin = \<lparr>Name = ''gin'', ImportPath = ''github.com/gin-gonic/gin'', Description = [],
          Version = ''v1.8.1'', IsInstalled = False\<rparr>"

definition viewed :: "int \<Rightarrow> string \<Rightarrow> Entry" where
  "viewed t name = \<lparr>Timestamp = t, Package = name, ImportPath = ''x/'' @ name, Action = ActionViewed\<rparr>"

definition emptyHistory :: History where
  "emptyHistory = \<lparr>maxEntries = 1000, fileLines = [], lineTooLong = (\<lambda>entry. False)\<rparr>"

definition elevenEntries :: History where
  "elevenEntries =
     \<lparr>maxEntries = 1000,
      fileLines = map JSONLine
               [viewed 0 ''ab'', viewed 1 ''c'', viewed 2 ''c'', viewed 3 ''c'', viewed 4 ''c'',
                viewed 5 ''c'', viewed 6 ''c'', viewed 7 ''c'', viewed 8 ''c'', viewed 9 ''c'',
                viewed 10 ''c''],
      lineTooLong = (\<lambda>entry. False)\<rparr>"

text \<open>A history that keeps no entry, and a package whose name is the single byte FF.\<close>

definition noRoomHistory :: History where
  "noRoomHistory = \<lparr>maxEntries = 0, fileLines = [], lineTooLong = (\<lambda>entry. False)\<rparr>"

definition badName :: Package where
  "badName = \<lparr>Name = [CHR 0xFF], ImportPath = ''github.com/x/y'', Description = [],
              Version = [], IsInstalled = False\<rparr>"

text \<open>A stand-in for the hash of the query in the examples.\<close>

definition exampleHash :: "string \<Rightarrow> string" where
  "exampleHash query = query"

definition testPkg :: Package where
  "testPkg = \<lparr>Name = ''pkg'', ImportPath = ''github.com/test/pkg'', Description = [],
              Version = [], IsInstalled = False\<rparr>"

definition failTwiceServer :: "(string, string) Web" where
  "failTwiceServer =
     \<lparr>QueryEscape = (\<lambda>query. query),
      clientGet = (\<lambda>url n. if n < 2 then HTTPResponse 500 ''Server Error''
                            else HTTPResponse 200 ''<a href=/github.com/test/pkg>pkg</a>''),
      NewDocumentFromReader = Inr,
      parseResults = (\<lambda>doc. if doc = ''<a href=/github.com/test/pkg>pkg</a>'' then [testPkg] else [])\<rparr>"

definition alwaysFailServer :: "(string, string) Web" where
  "alwaysFailServer =
     \<lparr>QueryEscape = (\<lambda>query. query),
      clientGet = (\<lambda>url n. if n = 0 then TransportError ''timeout''
                            else HTTPResponse 503 ''Service Unavailable''),
      NewDocumentFromReader = Inr,
      parseResults = (\<lambda>doc. [testPkg])\<rparr>"

text \<open>
  An environment for example sessions: runes typed are appended to the search input,
  backspace removes its last character, nothing is installed, the keys of \<open>selected\<close>
  are visited in ascending order.
\<close>

definition typingEnv :: Env where
  "typingEnv =
     \<lparr>now = 0,
      searchInputUpdate =
        (\<lambda>msg v. case msg of
             KeyMsg k \<Rightarrow>
               if Type k = KeyRunes then v @ Runes k
               else if Type k = KeyOther \<and> String k = ''backspace'' then butlast v
               else v
           | _ \<Rightarrow> v),
      IsInstalledProbe = (\<lambda>importPath. False),
      rangeOrder = (\<lambda>sel. filter (\<lambda>i. case sel i of None \<Rightarrow> False | Some b \<Rightarrow> True)
                            [0, 1, 2, 3]),
      cacheClear = None\<rparr>"

definition keyRunes :: "string \<Rightarrow> Msg" where
  "keyRunes r = KeyMsg \<lparr>Type = KeyRunes, Runes = r, String = r\<rparr>"

definition keyEsc :: Msg where
  "keyEsc = KeyMsg \<lparr>Type = KeyEsc, Runes = [], String = ''esc''\<rparr>"

definition keyTab :: Msg where
  "keyTab = KeyMsg \<lparr>Type = KeyTab, Runes = [], String = ''tab''\<rparr>"

definition keyDown :: Msg where
  "keyDown = KeyMsg \<lparr>Type = KeyDown, Runes = [], String = ''down''\<rparr>"

definition keyEnter :: Msg where
  "keyEnter = KeyMsg \<lparr>Type = KeyEnter, Runes = [], String = ''enter''\<rparr>"

definition keyBackspace :: Msg where
  "keyBackspace = KeyMsg \<lparr>Type = KeyOther, Runes = [], String = ''backspace''\<rparr>"

text \<open>The session after typing \<open>a\<close> and receiving two results.\<close>

definition twoResults :: Model where
  "twoResults = (New emptyHistory)\<lparr>searchInput := ''a'', lastQuery := ''a'',
                   packages := [cobra, viper]\<rparr>"

text \<open>Then Tab selects the first result.\<close>

definition firstSelected :: Model where
  "firstSelected = twoResults\<lparr>selected := [0 \<mapsto> True]\<rparr>"

text \<open>Or Down moves the cursor to the second result.\<close>

definition cursorOnSecond :: Model where
  "cursorOnSecond = twoResults\<lparr>cursor := 1\<rparr>"

text \<open>After Tab, Enter opens the options view and records the view in the history.\<close>

definition optionsOpen :: Model where
  "optionsOpen = firstSelected\<lparr>viewState := ViewOptions,
       history := emptyHistory\<lparr>fileLines := [JSONLine \<lparr>Timestamp = 0, Package = ''cobra'',
                               ImportPath = ''github.com/spf13/cobra'', Action = ActionViewed\<rparr>]\<rparr>\<rparr>"

text \<open>After Down, Tab and Enter: the options view with the installed package selected.\<close>

definition optionsOpenInstalled :: Model where
  "optionsOpenInstalled = cursorOnSecond\<lparr>selected := [1 \<mapsto> True], viewState := ViewOptions,
       history := emptyHistory\<lparr>fileLines := [JSONLine \<lparr>Timestamp = 0, Package = ''viper'',
                               ImportPath = ''github.com/spf13/viper'', Action = ActionViewed\<rparr>]\<rparr>\<rparr>"

section \<open>Properties of the JSON encoding\<close>

lemma toValidUTF8_valid: "ValidString s \<Longrightarrow> toValidUTF8 s = s"
  by (induction s rule: toValidUTF8.induct) (auto simp: Let_def simp del: DecodeRuneSize.simps)

lemma jsonPackage_valid: "ValidPackage pkg \<Longrightarrow> jsonPackage pkg = pkg"
  by (simp add: ValidPackage_def jsonPackage_def toValidUTF8_valid)

lemma map_jsonPackage_valid: "\<forall>pkg\<in>set pkgs. ValidPackage pkg \<Longrightarrow> map jsonPackage pkgs = pkgs"
  by (induction pkgs) (auto simp: jsonPackage_valid)

lemma jsonEntry_storable: "storable h entry \<Longrightarrow> jsonEntry entry = entry"
  by (simp add: storable_def jsonEntry_def toValidUTF8_valid)

section \<open>Properties of the history search\<close>

lemma sublist_tl_butlast:
  "sublist xs ys \<longleftrightarrow> xs = ys \<or> (ys \<noteq> [] \<and> (sublist xs (tl ys) \<or> sublist xs (butlast ys)))"
proof
  assume "sublist xs ys"
  then obtain ps ss where ys: "ys = ps @ xs @ ss" by (auto simp: sublist_def)
  show "xs = ys \<or> (ys \<noteq> [] \<and> (sublist xs (tl ys) \<or> sublist xs (butlast ys)))"
  proof (cases ps)
    case (Cons p ps')
    then have "tl ys = ps' @ xs @ ss" using ys by simp
    then have "sublist xs (tl ys)" by (auto simp: sublist_def)
    then show ?thesis using Cons ys by simp
  next
    case Nil
    show ?thesis
    proof (cases ss rule: rev_cases)
      case Nil
      then show ?thesis using \<open>ps = []\<close> ys by simp
    next
      case (snoc ss' x)
      then have "butlast ys = ps @ xs @ ss'" using ys by (simp add: butlast_append)
      then have "sublist xs (butlast ys)" by (auto simp: sublist_def)
      then show ?thesis using snoc ys by simp
    qed
  qed
next
  assume a: "xs = ys \<or> (ys \<noteq> [] \<and> (sublist xs (tl ys) \<or> sublist xs (butlast ys)))"
  then show "sublist xs ys"
  proof (elim disjE conjE)
    assume "xs = ys" then show ?thesis by simp
  next
    assume "ys \<noteq> []" "sublist xs (tl ys)"
    then obtain ps ss where "tl ys = ps @ xs @ ss" by (auto simp: sublist_def)
    then have "ys = (hd ys # ps) @ xs @ ss" using \<open>ys \<noteq> []\<close> by (cases ys) auto
    then show ?thesis unfolding sublist_def by blast
  next
    assume "ys \<noteq> []" "sublist xs (butlast ys)"
    then obtain ps ss where "butlast ys = ps @ xs @ ss" by (auto simp: sublist_def)
    then have "ys = ps @ xs @ (ss @ [last ys])" using \<open>ys \<noteq> []\<close>
      by (metis append_assoc append_butlast_last_id)
    then show ?thesis unfolding sublist_def by blast
  qed
qed

lemma contains_iff_sublist: "contains s substr \<longleftrightarrow> substr \<noteq> [] \<and> sublist substr s"
proof (induction s substr rule: contains.induct)
  case (1 s substr)
  show ?case
  proof (cases "length substr > 0 \<and> length s \<ge> length substr")
    case True
    then have ne: "s \<noteq> []" "substr \<noteq> []" by auto
    have "contains s substr \<longleftrightarrow> s = substr \<or> contains (tl s) substr \<or> contains (butlast s) substr"
      using True by (subst contains.simps) simp
    also have "\<dots> \<longleftrightarrow> s = substr \<or> sublist substr (tl s) \<or> sublist substr (butlast s)"
      using "1.IH" True ne by auto
    also have "\<dots> \<longleftrightarrow> sublist substr s"
      using sublist_tl_butlast[of substr s] ne by auto
    finally show ?thesis using ne by simp
  next
    case False
    then have "\<not> contains s substr" by (subst contains.simps) auto
    moreover have "\<not> (substr \<noteq> [] \<and> sublist substr s)"
      using False sublist_length_le[of substr s] by auto
    ultimately show ?thesis by simp
  qed
qed

lemma SearchLoop_filter:
  "SearchLoop es query matches =
     matches @ filter (\<lambda>entry. contains (Package entry) query \<or> contains (Entry.ImportPath entry) query) es"
  by (induction es arbitrary: matches) auto

text \<open>
  C4 (amended). \<open>contains\<close> agrees with substring containment exactly on the non-empty
  queries and is false for the empty query; so \<open>History.Search\<close> with a non-empty query
  returns, in the original order, exactly the entries whose \<open>Package\<close> or \<open>ImportPath\<close>
  has the query as a contiguous substring, as the linear scan does (and the error of
  \<open>readEntries\<close> when the log cannot be read, as the scan does); with the empty query it
  returns no entry.
\<close>
theorem history_search_is_substring_scan:
  "contains s query = (query \<noteq> [] \<and> sublist query s) \<and>
   History_Search h query =
     (if query = [] then map_sum id (\<lambda>entries. []) (readEntries h)
      else Search_linear_scan h query)"
  by (cases "readEntries h")
     (simp_all add: contains_iff_sublist History_Search_def Search_linear_scan_def
        SearchLoop_filter)

theorem history_search_is_substring_scan_witness:
  "contains ''abcd'' ''bc'' \<and> sublist ''bc'' ''abcd'' \<and>
   \<not> contains ''abcd'' ''BC'' \<and> \<not> sublist ''BC'' ''abcd'' \<and>
   History_Search elevenEntries ''ab'' = Inr [viewed 0 ''ab''] \<and>
   Search_linear_scan elevenEntries ''ab'' = Inr [viewed 0 ''ab'']"
proof -
  have c: "contains ''abcd'' ''bc''" by (simp add: contains.simps)
  have n: "\<not> contains ''abcd'' ''BC''" by (simp add: contains.simps)
  have s: "History_Search elevenEntries ''ab'' = Inr [viewed 0 ''ab'']"
    by (simp add: History_Search_def readEntries_def elevenEntries_def viewed_def contains.simps)
  show ?thesis
    using c n s history_search_is_substring_scan[of "''abcd''" "''bc''" elevenEntries]
      history_search_is_substring_scan[of "''abcd''" "''BC''" elevenEntries]
      history_search_is_substring_scan[of "''abcd''" "''ab''" elevenEntries]
    by simp
qed

text \<open>
  C4 as stated fails at the empty query: the empty string is a substring of every
  string, and the linear scan keeps every entry, while \<open>contains\<close> is false and
  \<open>History.Search\<close> returns nothing.
\<close>
theorem history_search_empty_query_counterexample:
  "sublist '''' ''cobra'' \<and> \<not> contains ''cobra'' '''' \<and>
   Search_linear_scan (emptyHistory\<lparr>fileLines := [JSONLine (viewed 0 ''cobra'')]\<rparr>) ''''
     = Inr [viewed 0 ''cobra''] \<and>
   History_Search (emptyHistory\<lparr>fileLines := [JSONLine (viewed 0 ''cobra'')]\<rparr>) '''' = Inr []"
  by (simp add: contains.simps Search_linear_scan_def History_Search_def readEntries_def
      emptyHistory_def)

section \<open>Properties of the install command\<close>

lemma GetInstallCommandLoop_eq:
  "GetInstallCommandLoop ps acc =
     acc @ map (\<lambda>pkg. if Version pkg = [] then Package.ImportPath pkg
                       else Package.ImportPath pkg @ ''@'' @ Version pkg)
             (filter (\<lambda>pkg. \<not> IsInstalled pkg) ps)"
  by (induction ps arbitrary: acc) auto

lemma GetInstallCommand_eq:
  "GetInstallCommand ps =
     (if \<forall>pkg\<in>set ps. IsInstalled pkg then []
      else ''go get '' @
           Join (map (\<lambda>pkg. if Version pkg = [] then Package.ImportPath pkg
                              else Package.ImportPath pkg @ ''@'' @ Version pkg)
                     (filter (\<lambda>pkg. \<not> IsInstalled pkg) ps)) '' '')"
  by (auto simp: GetInstallCommand_def GetInstallCommandLoop_eq Let_def filter_empty_conv)

text \<open>
  C6. \<open>GetInstallCommand\<close> returns the empty string when every package of the list is
  installed (in particular for the empty list); otherwise it returns one \<open>go get\<close>
  invocation whose arguments are exactly the not-installed packages, in input order,
  each rendered as \<open>importPath@version\<close> when it has a version and as \<open>importPath\<close>
  when it has none.
\<close>
theorem install_command_covers_not_installed:
  "GetInstallCommand pkgs =
     (if \<forall>pkg\<in>set pkgs. IsInstalled pkg then []
      else ''go get '' @
           Join (map (\<lambda>pkg. if Version pkg = [] then Package.ImportPath pkg
                              else Package.ImportPath pkg @ ''@'' @ Version pkg)
                     (filter (\<lambda>pkg. \<not> IsInstalled pkg) pkgs)) '' '')"
  by (rule GetInstallCommand_eq)

theorem install_command_covers_not_installed_witness:
  "GetInstallCommand [cobra, viper, gin] =
     ''go get github.com/spf13/cobra github.com/gin-gonic/gin@v1.8.1'' \<and>
   GetInstallCommand [viper] = [] \<and> GetInstallCommand [] = []"
  using install_command_covers_not_installed[of "[cobra, viper, gin]"]
    install_command_covers_not_installed[of "[viper]"]
    install_command_covers_not_installed[of "[]"]
  by (simp add: cobra_def viper_def gin_def)

section \<open>Properties of the history log\<close>

lemma Since_less_Hour: "Since t2 t1 < Hour \<longleftrightarrow> t2 - t1 < Hour"
  by (auto simp: Since_def Hour_def)

lemma isDuplicateLoop_iff:
  "isDuplicateLoop t es n p a \<longleftrightarrow>
     (\<exists>e\<in>set es. Package e = n \<and> Entry.ImportPath e = p \<and> Action e = a
        \<and> Since t (Entry.Timestamp e) < Hour)"
  by (induction es) auto

lemma isDuplicate_iff:
  "isDuplicate h t n p a \<longleftrightarrow>
     (\<exists>es. readEntries h = Inr es
        \<and> (\<exists>e\<in>set (drop (length es - 10) es).
              Package e = n \<and> Entry.ImportPath e = p \<and> Action e = a
              \<and> t - Entry.Timestamp e < Hour))"
proof (cases "readEntries h")
  case (Inl err)
  then show ?thesis by (simp add: isDuplicate_def)
next
  case (Inr es)
  have "nat (if int (length es) - 10 < 0 then 0 else int (length es) - 10) = length es - 10"
    by auto
  then show ?thesis
    using Inr by (simp add: isDuplicate_def Let_def isDuplicateLoop_iff Since_less_Hour)
qed

lemma readEntriesLoop_JSON:
  "readEntriesLoop (map JSONLine es) acc = Inr (acc @ es)"
  by (induction es arbitrary: acc) auto

lemma writeEntriesLoop_storable:
  "\<forall>e\<in>set es. storable h e \<Longrightarrow>
     writeEntriesLoop (lineTooLong h) es out = out @ map JSONLine es"
proof (induction es arbitrary: out)
  case Nil
  then show ?case by simp
next
  case (Cons e es)
  then have "storable h e" by simp
  then have "marshalableTime (Entry.Timestamp e)" "\<not> lineTooLong h e" "jsonEntry e = e"
    by (auto simp: storable_def jsonEntry_storable)
  then show ?case using Cons by simp
qed

lemma readEntries_writeEntries:
  "\<forall>e\<in>set es. storable h e \<Longrightarrow> readEntries (writeEntries h es) = Inr es"
  by (simp add: readEntries_def writeEntries_def writeEntriesLoop_storable readEntriesLoop_JSON)

lemma writeEntries_fields [simp]:
  "maxEntries (writeEntries h es) = maxEntries h"
  "lineTooLong (writeEntries h es) = lineTooLong h"
  by (simp_all add: writeEntries_def)

lemma History_Add_fresh:
  assumes "1 \<le> maxEntries h" "readEntries h = Inr es" "\<not> isDuplicate h t n p a"
  shows "History_Add h t n p a =
           Inr (None, writeEntries h (drop (length es + 1 - nat (maxEntries h))
                   (es @ [\<lparr>Timestamp = t, Package = n, ImportPath = p, Action = a\<rparr>])))"
proof -
  have "nat (int (length es) + 1 - maxEntries h) = length es + 1 - nat (maxEntries h)"
    using assms(1) by auto
  moreover have "nat (1 + int (length es) - maxEntries h) = Suc (length es) - nat (maxEntries h)"
    using assms(1) by auto
  moreover have "int (length es) + 1 \<le> maxEntries h \<Longrightarrow> length es + 1 - nat (maxEntries h) = 0"
    by auto
  ultimately show ?thesis using assms
    by (auto simp: History_Add_def Let_def)
qed

lemma History_Add_dup: "isDuplicate h t n p a \<Longrightarrow> History_Add h t n p a = Inr (None, h)"
  by (simp add: History_Add_def)

lemma isDuplicate_last:
  assumes "readEntries h = Inr (es @ [\<lparr>Timestamp = t, Package = n, ImportPath = p, Action = a\<rparr>])"
      and "t' - t < Hour"
  shows "isDuplicate h t' n p a"
proof -
  let ?e = "\<lparr>Timestamp = t, Package = n, ImportPath = p, Action = a\<rparr>"
  have "?e \<in> set (drop (length (es @ [?e]) - 10) (es @ [?e]))" by simp
  then show ?thesis
    using assms by (auto simp: isDuplicate_iff intro!: bexI[of _ ?e])
qed

lemma storable_cong: "lineTooLong h' = lineTooLong h \<Longrightarrow> storable h' e = storable h e"
  by (simp add: storable_def)

lemma readEntries_Clear: "readEntries (History_Clear h) = Inr []"
  by (simp add: readEntries_def History_Clear_def)

text \<open>
  C7 (amended). Take a log that can be read, holds storable entries and has room for
  at least one entry, and a name and a path that are valid UTF-8, with no matching
  recent entry in the log (in particular the empty log); the entries written are
  storable (their time can be encoded and their line fits the scanner). Then three calls
  of \<open>Add\<close> with the same name, path and action, the later two less than an hour after the
  first, store exactly one entry: the first call appends it (the oldest entries leave
  when the maximum is exceeded) and the other two are no-ops. The duplicate check looks
  at the last 10 entries read only, for an entry with the same name, path and action that
  is less than an hour old, and a match makes the call a no-op. After \<open>Clear\<close>, \<open>Add\<close> with
  the same arguments stores a new entry.
\<close>
theorem history_add_thrice_stores_once:
  assumes "1 \<le> maxEntries h"
      and "readEntries h = Inr es"
      and "\<forall>e\<in>set es. storable h e"
      and "storable h \<lparr>Timestamp = t1, Package = name, ImportPath = path, Action = action\<rparr>"
      and "storable h \<lparr>Timestamp = t4, Package = name, ImportPath = path, Action = action\<rparr>"
      and "\<not> isDuplicate h t1 name path action"
      and "t2 - t1 < Hour" and "t3 - t1 < Hour"
  shows "\<exists>h1 h4. History_Add h t1 name path action = Inr (None, h1)
           \<and> History_Add h1 t2 name path action = Inr (None, h1)
           \<and> History_Add h1 t3 name path action = Inr (None, h1)
           \<and> History_Add_thrice h t1 t2 t3 name path action = Inr h1
           \<and> readEntries h1 = Inr (drop (length es + 1 - nat (maxEntries h))
                 (es @ [\<lparr>Timestamp = t1, Package = name, ImportPath = path, Action = action\<rparr>]))
           \<and> (es = [] \<longrightarrow>
                readEntries h1 =
                  Inr [\<lparr>Timestamp = t1, Package = name, ImportPath = path, Action = action\<rparr>])
           \<and> History_Add (History_Clear h1) t4 name path action = Inr (None, h4)
           \<and> readEntries h4 =
                Inr [\<lparr>Timestamp = t4, Package = name, ImportPath = path, Action = action\<rparr>]
           \<and> (isDuplicate h' t name' path' action' \<longleftrightarrow>
                (\<exists>es'. readEntries h' = Inr es'
                   \<and> (\<exists>e\<in>set (drop (length es' - 10) es').
                         Package e = name' \<and> Entry.ImportPath e = path' \<and> Action e = action'
                         \<and> t - Entry.Timestamp e < Hour)))
           \<and> (isDuplicate h' t name' path' action' \<longrightarrow>
                History_Add h' t name' path' action' = Inr (None, h'))"
proof -
  let ?e1 = "\<lparr>Timestamp = t1, Package = name, ImportPath = path, Action = action\<rparr>"
  let ?e4 = "\<lparr>Timestamp = t4, Package = name, ImportPath = path, Action = action\<rparr>"
  let ?k = "length es + 1 - nat (maxEntries h)"
  let ?h1 = "writeEntries h (drop ?k (es @ [?e1]))"
  let ?h4 = "writeEntries (History_Clear ?h1) [?e4]"
  have k: "?k \<le> length es" using assms(1) by auto
  then have es1: "drop ?k (es @ [?e1]) = drop ?k es @ [?e1]" by simp
  have st1: "\<forall>e\<in>set (drop ?k (es @ [?e1])). storable h e"
    using assms(3,4) unfolding es1 by (auto dest: in_set_dropD)
  have a1: "History_Add h t1 name path action = Inr (None, ?h1)"
    using assms(1,2,6) by (rule History_Add_fresh)
  have r1: "readEntries ?h1 = Inr (drop ?k (es @ [?e1]))"
    using st1 by (rule readEntries_writeEntries)
  have r1': "readEntries ?h1 = Inr (drop ?k es @ [?e1])"
    using r1 unfolding es1 .
  have a2: "History_Add ?h1 t2 name path action = Inr (None, ?h1)"
    using isDuplicate_last[OF r1' assms(7)] by (rule History_Add_dup)
  have a3: "History_Add ?h1 t3 name path action = Inr (None, ?h1)"
    using isDuplicate_last[OF r1' assms(8)] by (rule History_Add_dup)
  have thrice: "History_Add_thrice h t1 t2 t3 name path action = Inr ?h1"
    by (simp only: History_Add_thrice_def a1 a2 a3 sum.case prod.case)
  have one: "es = [] \<longrightarrow> readEntries ?h1 = Inr [?e1]"
    using r1 assms(1) by auto
  have m4: "1 \<le> maxEntries (History_Clear ?h1)"
    using assms(1) by (simp add: History_Clear_def)
  have nodup: "\<not> isDuplicate (History_Clear ?h1) t4 name path action"
    by (simp add: isDuplicate_iff readEntries_Clear)
  have "History_Add (History_Clear ?h1) t4 name path action =
          Inr (None, writeEntries (History_Clear ?h1)
                 (drop (length ([]::Entry list) + 1 - nat (maxEntries (History_Clear ?h1)))
                    ([] @ [?e4])))"
    using m4 readEntries_Clear nodup by (rule History_Add_fresh)
  moreover have "drop (length ([]::Entry list) + 1 - nat (maxEntries (History_Clear ?h1))) ([] @ [?e4])
                 = [?e4]"
    using m4 by auto
  ultimately have a4: "History_Add (History_Clear ?h1) t4 name path action = Inr (None, ?h4)"
    by simp
  have "storable (History_Clear ?h1) ?e4"
    using assms(5) by (simp add: storable_def History_Clear_def)
  then have r4: "readEntries ?h4 = Inr [?e4]"
    by (intro readEntries_writeEntries) simp
  have scan: "isDuplicate h' t name' path' action' \<longleftrightarrow>
                (\<exists>es'. readEntries h' = Inr es'
                   \<and> (\<exists>e\<in>set (drop (length es' - 10) es').
                         Package e = name' \<and> Entry.ImportPath e = path' \<and> Action e = action'
                         \<and> t - Entry.Timestamp e < Hour))"
    by (rule isDuplicate_iff)
  have noop: "isDuplicate h' t name' path' action' \<longrightarrow>
                History_Add h' t name' path' action' = Inr (None, h')"
    by (simp add: History_Add_dup)
  show ?thesis
    using a1 a2 a3 thrice r1 one a4 r4 scan noop by blast
qed

theorem history_add_thrice_stores_once_witness:
  "1 \<le> maxEntries emptyHistory
   \<and> readEntries emptyHistory = Inr []
   \<and> storable emptyHistory \<lparr>Timestamp = 0, Package = ''cobra'',
         ImportPath = ''github.com/spf13/cobra'', Action = ActionViewed\<rparr>
   \<and> storable emptyHistory \<lparr>Timestamp = 3, Package = ''cobra'',
         ImportPath = ''github.com/spf13/cobra'', Action = ActionViewed\<rparr>
   \<and> \<not> isDuplicate emptyHistory 0 ''cobra'' ''github.com/spf13/cobra'' ActionViewed
   \<and> (1::int) - 0 < Hour \<and> (2::int) - 0 < Hour
   \<and> (\<exists>h1 h4. History_Add_thrice emptyHistory 0 1 2 ''cobra'' ''github.com/spf13/cobra'' ActionViewed
                  = Inr h1
           \<and> readEntries h1 = Inr [\<lparr>Timestamp = 0, Package = ''cobra'',
                              ImportPath = ''github.com/spf13/cobra'', Action = ActionViewed\<rparr>]
           \<and> History_Add (History_Clear h1) 3 ''cobra'' ''github.com/spf13/cobra'' ActionViewed =
               Inr (None, h4)
           \<and> readEntries h4 = Inr [\<lparr>Timestamp = 3, Package = ''cobra'',
                              ImportPath = ''github.com/spf13/cobra'', Action = ActionViewed\<rparr>])
   \<and> readEntries elevenEntries =
        Inr [viewed 0 ''ab'', viewed 1 ''c'', viewed 2 ''c'', viewed 3 ''c'', viewed 4 ''c'',
             viewed 5 ''c'', viewed 6 ''c'', viewed 7 ''c'', viewed 8 ''c'', viewed 9 ''c'',
             viewed 10 ''c'']
   \<and> storable elevenEntries (viewed 0 ''ab'') \<and> storable elevenEntries (viewed 10 ''c'')
   \<and> \<not> isDuplicate elevenEntries 11 ''ab'' ''x/ab'' ActionViewed
   \<and> isDuplicate elevenEntries 11 ''c'' ''x/c'' ActionViewed
   \<and> (\<exists>h1. History_Add_thrice elevenEntries 11 12 13 ''ab'' ''x/ab'' ActionViewed = Inr h1
         \<and> readEntries h1 =
              Inr [viewed 0 ''ab'', viewed 1 ''c'', viewed 2 ''c'', viewed 3 ''c'', viewed 4 ''c'',
                   viewed 5 ''c'', viewed 6 ''c'', viewed 7 ''c'', viewed 8 ''c'', viewed 9 ''c'',
                   viewed 10 ''c'', viewed 11 ''ab''])"
proof -
  let ?es = "[viewed 0 ''ab'', viewed 1 ''c'', viewed 2 ''c'', viewed 3 ''c'', viewed 4 ''c'',
             viewed 5 ''c'', viewed 6 ''c'', viewed 7 ''c'', viewed 8 ''c'', viewed 9 ''c'',
             viewed 10 ''c'']"
  have h1: "1 \<le> maxEntries emptyHistory" by (simp add: emptyHistory_def)
  have h2: "readEntries emptyHistory = Inr []" by (simp add: emptyHistory_def readEntries_def)
  have h3: "\<forall>e\<in>set ([]::Entry list). storable emptyHistory e" by simp
  have h4: "storable emptyHistory \<lparr>Timestamp = 0, Package = ''cobra'',
         ImportPath = ''github.com/spf13/cobra'', Action = ActionViewed\<rparr>"
    by (simp add: storable_def emptyHistory_def marshalableTime_def)
  have h5: "storable emptyHistory \<lparr>Timestamp = 3, Package = ''cobra'',
         ImportPath = ''github.com/spf13/cobra'', Action = ActionViewed\<rparr>"
    by (simp add: storable_def emptyHistory_def marshalableTime_def)
  have h6: "\<not> isDuplicate emptyHistory 0 ''cobra'' ''github.com/spf13/cobra'' ActionViewed"
    by (simp add: emptyHistory_def isDuplicate_def readEntries_def)
  have h7: "(1::int) - 0 < Hour" by (simp add: Hour_def)
  have h8: "(2::int) - 0 < Hour" by (simp add: Hour_def)
  have d1: "\<not> isDuplicate elevenEntries 11 ''ab'' ''x/ab'' ActionViewed"
    by (simp add: elevenEntries_def isDuplicate_def readEntries_def viewed_def)
  have d2: "isDuplicate elevenEntries 11 ''c'' ''x/c'' ActionViewed"
    by (simp add: elevenEntries_def isDuplicate_def readEntries_def viewed_def Since_def Hour_def)
  from history_add_thrice_stores_once[OF h1 h2 h3 h4 h5 h6 h7 h8,
      of elevenEntries 11 "''ab''" "''x/ab''" ActionViewed]
  have first: "\<exists>h1 h4. History_Add_thrice emptyHistory 0 1 2 ''cobra'' ''github.com/spf13/cobra'' ActionViewed
                  = Inr h1
           \<and> readEntries h1 = Inr [\<lparr>Timestamp = 0, Package = ''cobra'',
                              ImportPath = ''github.com/spf13/cobra'', Action = ActionViewed\<rparr>]
           \<and> History_Add (History_Clear h1) 3 ''cobra'' ''github.com/spf13/cobra'' ActionViewed =
               Inr (None, h4)
           \<and> readEntries h4 = Inr [\<lparr>Timestamp = 3, Package = ''cobra'',
                              ImportPath = ''github.com/spf13/cobra'', Action = ActionViewed\<rparr>]"
    by auto
  have e1: "1 \<le> maxEntries elevenEntries" by (simp add: elevenEntries_def)
  have e2: "readEntries elevenEntries = Inr ?es"
    by (simp add: elevenEntries_def readEntries_def)
  have e3: "\<forall>e\<in>set ?es. storable elevenEntries e"
    by (simp add: storable_def elevenEntries_def viewed_def marshalableTime_def)
  have e4: "storable elevenEntries \<lparr>Timestamp = 11, Package = ''ab'', ImportPath = ''x/ab'',
              Action = ActionViewed\<rparr>"
    by (simp add: storable_def elevenEntries_def marshalableTime_def)
  have e7: "(12::int) - 11 < Hour" by (simp add: Hour_def)
  have e8: "(13::int) - 11 < Hour" by (simp add: Hour_def)
  have s0: "storable elevenEntries (viewed 0 ''ab'')" using e3 by simp
  have s10: "storable elevenEntries (viewed 10 ''c'')" using e3 by simp
  from history_add_thrice_stores_once[OF e1 e2 e3 e4 e4 d1 e7 e8]
  obtain g1 where g: "History_Add_thrice elevenEntries 11 12 13 ''ab'' ''x/ab'' ActionViewed = Inr g1"
    "readEntries g1 = Inr (drop (length ?es + 1 - nat (maxEntries elevenEntries))
        (?es @ [\<lparr>Timestamp = 11, Package = ''ab'', ImportPath = ''x/ab'', Action = ActionViewed\<rparr>]))"
    by blast
  have "drop (length ?es + 1 - nat (maxEntries elevenEntries))
        (?es @ [\<lparr>Timestamp = 11, Package = ''ab'', ImportPath = ''x/ab'', Action = ActionViewed\<rparr>])
        = ?es @ [viewed 11 ''ab'']"
    by (simp add: elevenEntries_def viewed_def)
  then have second: "\<exists>h1. History_Add_thrice elevenEntries 11 12 13 ''ab'' ''x/ab'' ActionViewed = Inr h1
         \<and> readEntries h1 = Inr (?es @ [viewed 11 ''ab''])"
    using g by auto
  show ?thesis using h1 h2 h4 h5 h6 h7 h8 first e2 s0 s10 d1 d2 second by simp
qed

text \<open>
  C7 as stated fails in two ways. A name that is not valid UTF-8 is stored with U+FFFD
  in place of each invalid byte, so the stored entry never equals the arguments and
  three calls store three entries. And with a maximum of 0 entries every call writes
  back an empty log, so three calls store none.
\<close>
theorem history_add_thrice_counterexample:
  "map_sum id readEntries
     (History_Add_thrice emptyHistory 0 1 2 [CHR 0xFF] ''github.com/x/y'' ActionViewed)
   = Inr (Inr [\<lparr>Timestamp = 0, Package = [CHR 0xEF, CHR 0xBF, CHR 0xBD],
                  ImportPath = ''github.com/x/y'', Action = ActionViewed\<rparr>,
               \<lparr>Timestamp = 1, Package = [CHR 0xEF, CHR 0xBF, CHR 0xBD],
                  ImportPath = ''github.com/x/y'', Action = ActionViewed\<rparr>,
               \<lparr>Timestamp = 2, Package = [CHR 0xEF, CHR 0xBF, CHR 0xBD],
                  ImportPath = ''github.com/x/y'', Action = ActionViewed\<rparr>])
   \<and> map_sum id readEntries
     (History_Add_thrice noRoomHistory 0 1 2 ''cobra'' ''github.com/spf13/cobra'' ActionViewed)
   = Inr (Inr [])"
  by (simp add: History_Add_thrice_def History_Add_def isDuplicate_def readEntries_def
      writeEntries_def emptyHistory_def noRoomHistory_def marshalableTime_def jsonEntry_def
      isContinuation_def Let_def)

section \<open>Properties of the result cache\<close>

lemma Cache_Set_eq:
  "Cache_Set sha256hex c t0 query pkgs fs =
     (if marshalableTime t0
      then Inr ((fs(filepath_Join (dir c) (getFilename sha256hex query) \<mapsto>
                   JSONFile (jsonCacheEntry \<lparr>Query = query, Results = pkgs,
                                              CacheEntry.Timestamp = t0\<rparr>)))
                  (filepath_Join (dir c) (getFilename sha256hex query) @ ''.tmp'' := None))
      else Inl ''failed to marshal cache entry'')"
proof -
  let ?path = "filepath_Join (dir c) (getFilename sha256hex query)"
  have "\<And>d. ((fs(?path @ ''.tmp'' \<mapsto> d))(?path \<mapsto> d))(?path @ ''.tmp'' := None)
        = (fs(?path \<mapsto> d))(?path @ ''.tmp'' := None)"
    by (rule ext) simp
  then show ?thesis by (simp add: Cache_Set_def MarshalIndent_def Let_def)
qed

lemma Cache_Get_after_Set:
  "Cache_Get sha256hex c t1 query
     ((fs(filepath_Join (dir c) (getFilename sha256hex query) \<mapsto> JSONFile entry))
        (filepath_Join (dir c) (getFilename sha256hex query) @ ''.tmp'' := None)) =
   (if isExpired c t1 (CacheEntry.Timestamp entry)
    then (None, (fs(filepath_Join (dir c) (getFilename sha256hex query) := None))
            (filepath_Join (dir c) (getFilename sha256hex query) @ ''.tmp'' := None))
    else (Some entry, (fs(filepath_Join (dir c) (getFilename sha256hex query) \<mapsto> JSONFile entry))
            (filepath_Join (dir c) (getFilename sha256hex query) @ ''.tmp'' := None)))"
proof -
  let ?path = "filepath_Join (dir c) (getFilename sha256hex query)"
  have "\<And>d. ((fs(?path \<mapsto> d))(?path @ ''.tmp'' := None))(?path := None)
        = (fs(?path := None))(?path @ ''.tmp'' := None)"
    by (rule ext) simp
  then show ?thesis by (simp add: Cache_Get_def Let_def)
qed

lemma ttl_zero: "ttlDays c = 0 \<Longrightarrow> ttl c = 0"
  by (simp add: ttl_def)

lemma ttl_exact:
  assumes "- 106751 \<le> ttlDays c" "ttlDays c \<le> 106751"
  shows "ttl c = ttlDays c * 86400000000000"
proof -
  have lb: "- (2 ^ 63) \<le> ttlDays c * 86400000000000" using assms(1) by simp
  have ub: "ttlDays c * 86400000000000 < 2 ^ 63" using assms(2) by simp
  have "(word_of_int (ttlDays c) :: 64 word) * 24 * 3600000000000
        = word_of_int (ttlDays c * 86400000000000)"
    by simp
  then have "ttl c = sint (word_of_int (ttlDays c * 86400000000000) :: 64 word)"
    by (simp only: ttl_def)
  also have "\<dots> = signed_take_bit 63 (ttlDays c * 86400000000000)"
    by (subst sint_sbintrunc') simp
  also have "\<dots> = ttlDays c * 86400000000000"
    by (rule signed_take_bit_int_eq_self[OF lb ub])
  finally show ?thesis .
qed

lemma Since_pos: "0 < Since t1 t0 \<longleftrightarrow> t0 < t1"
  by (auto simp: Since_def)

lemma jsonCacheEntry_sel [simp]:
  "Query (jsonCacheEntry e) = toValidUTF8 (Query e)"
  "Results (jsonCacheEntry e) = map jsonPackage (Results e)"
  "CacheEntry.Timestamp (jsonCacheEntry e) = CacheEntry.Timestamp e"
  by (simp_all add: jsonCacheEntry_def)

text \<open>
  C2 (amended). For every query \<open>Q\<close> and package list \<open>R\<close>, with a TTL from -106751 to
  106751 days (where the 64-bit product of the code is exact) that is greater than the
  elapsed time: after a successful \<open>Set(Q, R)\<close>, the immediate \<open>Get(Q)\<close> finds an entry whose
  \<open>Results\<close> are \<open>R\<close> with every string coerced to valid UTF-8, element for element and in
  order; so they equal \<open>R\<close> unchanged when all the strings of \<open>R\<close> are valid UTF-8.
\<close>
theorem cache_set_get_roundtrip:
  assumes "Cache_Set sha256hex c t0 query pkgs fs = Inr fs1"
      and "- 106751 \<le> ttlDays c" and "ttlDays c \<le> 106751"
      and "Since t1 t0 < ttlDays c * 86400000000000"
  shows "\<exists>entry. Cache_Get sha256hex c t1 query fs1 = (Some entry, fs1)
           \<and> Set_then_Get sha256hex c t0 t1 query pkgs fs = Inr (Some entry, fs1)
           \<and> Results entry = map jsonPackage pkgs
           \<and> ((\<forall>pkg\<in>set pkgs. ValidPackage pkg) \<longrightarrow> Results entry = pkgs)"
proof -
  let ?e = "jsonCacheEntry \<lparr>Query = query, Results = pkgs, CacheEntry.Timestamp = t0\<rparr>"
  have m: "marshalableTime t0"
    using assms(1) by (simp add: Cache_Set_eq split: if_splits)
  have fs1: "fs1 = (fs(filepath_Join (dir c) (getFilename sha256hex query) \<mapsto> JSONFile ?e))
                  (filepath_Join (dir c) (getFilename sha256hex query) @ ''.tmp'' := None)"
    using assms(1) m by (simp add: Cache_Set_eq)
  have ne: "\<not> isExpired c t1 (CacheEntry.Timestamp ?e)"
    using assms(4) by (simp add: isExpired_def ttl_exact[OF assms(2,3)])
  have g: "Cache_Get sha256hex c t1 query fs1 = (Some ?e, fs1)"
    unfolding fs1 using ne by (simp only: Cache_Get_after_Set if_False)
  have sg: "Set_then_Get sha256hex c t0 t1 query pkgs fs = Inr (Some ?e, fs1)"
    using assms(1) g by (simp add: Set_then_Get_def)
  have r: "Results ?e = map jsonPackage pkgs" by simp
  have v: "(\<forall>pkg\<in>set pkgs. ValidPackage pkg) \<longrightarrow> Results ?e = pkgs"
    by (simp add: map_jsonPackage_valid)
  show ?thesis using g sg r v by blast
qed

theorem cache_set_get_roundtrip_witness:
  "Cache_Set exampleHash \<lparr>dir = ''/cache'', ttlDays = 7\<rparr> 5 ''cobra'' [cobra, gin] Map.empty
     = Inr [''/cache/cobra.json'' \<mapsto>
              JSONFile \<lparr>Query = ''cobra'', Results = [cobra, gin], CacheEntry.Timestamp = 5\<rparr>]
   \<and> - 106751 \<le> ttlDays \<lparr>dir = ''/cache'', ttlDays = 7\<rparr>
   \<and> ttlDays \<lparr>dir = ''/cache'', ttlDays = 7\<rparr> \<le> 106751
   \<and> Since 1000 5 < ttlDays \<lparr>dir = ''/cache'', ttlDays = 7\<rparr> * 86400000000000
   \<and> ValidPackage cobra \<and> ValidPackage gin
   \<and> (\<exists>entry. Set_then_Get exampleHash \<lparr>dir = ''/cache'', ttlDays = 7\<rparr> 5 1000 ''cobra''
                      [cobra, gin] Map.empty
                 = Inr (Some entry, [''/cache/cobra.json'' \<mapsto>
                     JSONFile \<lparr>Query = ''cobra'', Results = [cobra, gin], CacheEntry.Timestamp = 5\<rparr>])
           \<and> Results entry = [cobra, gin])"
proof -
  let ?c = "\<lparr>dir = ''/cache'', ttlDays = 7\<rparr>"
  let ?fs1 = "[''/cache/cobra.json'' \<mapsto>
              JSONFile \<lparr>Query = ''cobra'', Results = [cobra, gin], CacheEntry.Timestamp = 5\<rparr>]"
  have j: "jsonCacheEntry \<lparr>Query = ''cobra'', Results = [cobra, gin], CacheEntry.Timestamp = 5\<rparr>
           = \<lparr>Query = ''cobra'', Results = [cobra, gin], CacheEntry.Timestamp = 5\<rparr>"
    by (simp add: jsonCacheEntry_def jsonPackage_def cobra_def gin_def)
  have s: "Cache_Set exampleHash ?c 5 ''cobra'' [cobra, gin] Map.empty = Inr ?fs1"
    by (simp add: Cache_Set_def MarshalIndent_def marshalableTime_def j Let_def
        getFilename_def filepath_Join_def exampleHash_def fun_eq_iff)
  have l: "- 106751 \<le> ttlDays ?c" by simp
  have u: "ttlDays ?c \<le> 106751" by simp
  have t: "Since 1000 5 < ttlDays ?c * 86400000000000" by (simp add: Since_def)
  have v1: "ValidPackage cobra" by (simp add: ValidPackage_def cobra_def)
  have v2: "ValidPackage gin" by (simp add: ValidPackage_def gin_def)
  have v: "\<forall>pkg\<in>set [cobra, gin]. ValidPackage pkg" using v1 v2 by simp
  from cache_set_get_roundtrip[OF s l u t] v
  have "\<exists>entry. Set_then_Get exampleHash ?c 5 1000 ''cobra'' [cobra, gin] Map.empty
                 = Inr (Some entry, ?fs1) \<and> Results entry = [cobra, gin]"
    by blast
  then show ?thesis using s l u t v1 v2 by blast
qed

text \<open>
  C2 as stated fails in two ways. The package name that is the single byte FF comes
  back as U+FFFD, so the \<open>Results\<close> differ from \<open>R\<close>. And with a TTL of 106752 days the
  product wraps to a negative duration: the TTL exceeds the elapsed time, yet \<open>Get\<close>
  returns not-found.
\<close>
theorem cache_set_get_roundtrip_counterexample:
  "map_sum id (map_option Results \<circ> fst)
     (Set_then_Get exampleHash \<lparr>dir = ''/cache'', ttlDays = 7\<rparr> 5 1000 ''q'' [badName] Map.empty)
   = Inr (Some [badName\<lparr>Name := [CHR 0xEF, CHR 0xBF, CHR 0xBD]\<rparr>])
   \<and> [badName\<lparr>Name := [CHR 0xEF, CHR 0xBF, CHR 0xBD]\<rparr>] \<noteq> [badName]
   \<and> Since 1000 5 < 106752 * 86400000000000
   \<and> map_sum id fst
     (Set_then_Get exampleHash \<lparr>dir = ''/cache'', ttlDays = 106752\<rparr> 5 1000 ''q'' [cobra] Map.empty)
   = Inr None"
  by (simp add: Set_then_Get_def Cache_Set_def Cache_Get_def MarshalIndent_def
      marshalableTime_def jsonCacheEntry_def jsonPackage_def badName_def cobra_def
      getFilename_def filepath_Join_def exampleHash_def isExpired_def ttl_def Since_def
      isContinuation_def Let_def)

text \<open>
  C5 (amended). For a cache with TTL 0, for every query and package list, after a
  successful \<open>Set(Q, R)\<close> the record is in place; a \<open>Get(Q)\<close> at any later time returns
  not-found and deletes the record, and a \<open>Get(Q)\<close> at zero elapsed time (or with the
  clock not ahead of the timestamp) still returns the entry and keeps the record.
\<close>
theorem cache_ttl_zero_stale_after_positive_time:
  assumes "ttlDays c = 0"
      and "Cache_Set sha256hex c t0 query pkgs fs = Inr fs1"
  shows "fs1 (filepath_Join (dir c) (getFilename sha256hex query)) =
           Some (JSONFile (jsonCacheEntry \<lparr>Query = query, Results = pkgs,
                                            CacheEntry.Timestamp = t0\<rparr>))
       \<and> (t0 < t1 \<longrightarrow>
            Cache_Get sha256hex c t1 query fs1 =
              (None, fs1(filepath_Join (dir c) (getFilename sha256hex query) := None)))
       \<and> (t1 \<le> t0 \<longrightarrow>
            Cache_Get sha256hex c t1 query fs1 =
              (Some (jsonCacheEntry \<lparr>Query = query, Results = pkgs,
                                      CacheEntry.Timestamp = t0\<rparr>), fs1))"
proof -
  let ?e = "jsonCacheEntry \<lparr>Query = query, Results = pkgs, CacheEntry.Timestamp = t0\<rparr>"
  let ?path = "filepath_Join (dir c) (getFilename sha256hex query)"
  have m: "marshalableTime t0"
    using assms(2) by (simp add: Cache_Set_eq split: if_splits)
  have fs1: "fs1 = (fs(?path \<mapsto> JSONFile ?e))(?path @ ''.tmp'' := None)"
    using assms(2) m by (simp add: Cache_Set_eq)
  have a: "fs1 ?path = Some (JSONFile ?e)" unfolding fs1 by simp
  have ex: "isExpired c t1 (CacheEntry.Timestamp ?e) \<longleftrightarrow> t0 < t1"
    by (simp add: isExpired_def ttl_zero[OF assms(1)] Since_pos)
  have del: "(fs(?path := None))(?path @ ''.tmp'' := None) = fs1(?path := None)"
    unfolding fs1 by (rule ext) simp
  have g: "Cache_Get sha256hex c t1 query fs1 =
             (if t0 < t1 then (None, fs1(?path := None)) else (Some ?e, fs1))"
    using ex del unfolding fs1 by (simp only: Cache_Get_after_Set)
  have b: "t0 < t1 \<longrightarrow> Cache_Get sha256hex c t1 query fs1 = (None, fs1(?path := None))"
    using g by simp
  have d: "t1 \<le> t0 \<longrightarrow> Cache_Get sha256hex c t1 query fs1 = (Some ?e, fs1)"
    using g by simp
  show ?thesis using a b d by blast
qed

theorem cache_ttl_zero_stale_after_positive_time_witness:
  "ttlDays \<lparr>dir = ''/cache'', ttlDays = 0\<rparr> = 0
   \<and> Cache_Set exampleHash \<lparr>dir = ''/cache'', ttlDays = 0\<rparr> 5 ''cobra'' [cobra] Map.empty
     = Inr [''/cache/cobra.json'' \<mapsto>
              JSONFile \<lparr>Query = ''cobra'', Results = [cobra], CacheEntry.Timestamp = 5\<rparr>]
   \<and> (5::int) < 6
   \<and> Cache_Get exampleHash \<lparr>dir = ''/cache'', ttlDays = 0\<rparr> 6 ''cobra''
        [''/cache/cobra.json'' \<mapsto>
              JSONFile \<lparr>Query = ''cobra'', Results = [cobra], CacheEntry.Timestamp = 5\<rparr>]
      = (None, Map.empty)
   \<and> (5::int) \<le> 5
   \<and> Cache_Get exampleHash \<lparr>dir = ''/cache'', ttlDays = 0\<rparr> 5 ''cobra''
        [''/cache/cobra.json'' \<mapsto>
              JSONFile \<lparr>Query = ''cobra'', Results = [cobra], CacheEntry.Timestamp = 5\<rparr>]
      = (Some \<lparr>Query = ''cobra'', Results = [cobra], CacheEntry.Timestamp = 5\<rparr>,
         [''/cache/cobra.json'' \<mapsto>
              JSONFile \<lparr>Query = ''cobra'', Results = [cobra], CacheEntry.Timestamp = 5\<rparr>])"
proof -
  let ?c = "\<lparr>dir = ''/cache'', ttlDays = 0\<rparr>"
  let ?e = "\<lparr>Query = ''cobra'', Results = [cobra], CacheEntry.Timestamp = 5\<rparr>"
  let ?fs1 = "[''/cache/cobra.json'' \<mapsto> JSONFile ?e]"
  have j: "jsonCacheEntry ?e = ?e"
    by (simp add: jsonCacheEntry_def jsonPackage_def cobra_def)
  have z: "ttlDays ?c = 0" by simp
  have s: "Cache_Set exampleHash ?c 5 ''cobra'' [cobra] Map.empty = Inr ?fs1"
    by (simp add: Cache_Set_def MarshalIndent_def marshalableTime_def j Let_def
        getFilename_def filepath_Join_def exampleHash_def fun_eq_iff)
  have p: "filepath_Join (dir ?c) (getFilename exampleHash ''cobra'') = ''/cache/cobra.json''"
    by (simp add: filepath_Join_def getFilename_def exampleHash_def)
  have d: "?fs1(''/cache/cobra.json'' := None) = Map.empty" by simp
  note a = cache_ttl_zero_stale_after_positive_time[OF z s, of 6, unfolded p j d]
  note b = cache_ttl_zero_stale_after_positive_time[OF z s, of 5, unfolded p j d]
  have lt: "(5::int) < 6" by simp
  have le: "(5::int) \<le> 5" by simp
  from a lt have g6: "Cache_Get exampleHash ?c 6 ''cobra'' ?fs1 = (None, Map.empty)" by blast
  from b le have g5: "Cache_Get exampleHash ?c 5 ''cobra'' ?fs1 = (Some ?e, ?fs1)" by blast
  show ?thesis using z s lt g6 le g5 by blast
qed

text \<open>
  C5 as stated fails at zero elapsed time: the test is \<open>time.Since(timestamp) > ttl\<close>,
  and \<open>0 > 0\<close> is false, so with a TTL of 0 a \<open>Get\<close> at the very time of the \<open>Set\<close>
  finds the entry and leaves the record in place.
\<close>
theorem cache_ttl_zero_fresh_at_zero_elapsed_counterexample:
  "map_sum id fst
     (Set_then_Get exampleHash \<lparr>dir = ''/cache'', ttlDays = 0\<rparr> 5 5 ''cobra'' [cobra] Map.empty)
   = Inr (Some \<lparr>Query = ''cobra'', Results = [cobra], CacheEntry.Timestamp = 5\<rparr>)
   \<and> map_sum id (\<lambda>r. snd r ''/cache/cobra.json'')
     (Set_then_Get exampleHash \<lparr>dir = ''/cache'', ttlDays = 0\<rparr> 5 5 ''cobra'' [cobra] Map.empty)
   = Inr (Some (JSONFile \<lparr>Query = ''cobra'', Results = [cobra], CacheEntry.Timestamp = 5\<rparr>))"
  by (simp add: Set_then_Get_def Cache_Set_def Cache_Get_def MarshalIndent_def
      marshalableTime_def jsonCacheEntry_def jsonPackage_def cobra_def
      getFilename_def filepath_Join_def exampleHash_def isExpired_def ttl_def Since_def Let_def)

section \<open>Properties of the scraper\<close>

lemma backoff_pow:
  assumes "1 \<le> k" "k \<le> 34"
  shows "backoff (int k) = 2 ^ (k - 1) * 1000000000"
proof -
  have n: "nat (int k - 1) = k - 1" using assms by auto
  have "(2::int) ^ (k - 1) \<le> 2 ^ 33"
    using assms by (intro power_increasing) auto
  then have ub: "(2::int) ^ (k - 1) * 1000000000 < 2 ^ 63" by simp
  have lb: "- (2 ^ 63) \<le> (2::int) ^ (k - 1) * 1000000000" 
    by (rule order_trans[of _ 0]) auto
  have "(push_bit (k - 1) 1 :: 64 word) * 1000000000 = word_of_int (2 ^ (k - 1) * 1000000000)"
    by (simp add: push_bit_eq_mult)
  then have "backoff (int k) = sint (word_of_int (2 ^ (k - 1) * 1000000000) :: 64 word)"
    by (simp add: backoff_def n)
  also have "\<dots> = signed_take_bit 63 (2 ^ (k - 1) * 1000000000)"
    by (subst sint_sbintrunc') simp
  also have "\<dots> = 2 ^ (k - 1) * 1000000000"
    by (rule signed_take_bit_int_eq_self[OF lb ub])
  finally show ?thesis .
qed

lemma retryEvents_nil [simp]: "n \<le> i \<Longrightarrow> retryEvents url i n = []"
  by (simp add: retryEvents_def)

lemma retryEvents_Cons:
  "i < n \<Longrightarrow> retryEvents url i n =
     (if 0 < i then [Sleep (backoff (int i))] else []) @ [HttpGet url] @ retryEvents url (Suc i) n"
  by (simp add: retryEvents_def upt_conv_Cons)

lemma attempts_append [simp]: "attempts (xs @ ys) = attempts xs + attempts ys"
  by (simp add: attempts_def)

lemma attempts_retryEvents [simp]: "attempts (retryEvents url i n) = n - i"
proof (induction "n - i" arbitrary: i)
  case 0
  then show ?case by (simp add: attempts_def)
next
  case (Suc d)
  then have "i < n" by simp
  moreover have "attempts (retryEvents url (Suc i) n) = n - Suc i"
    using Suc by simp
  ultimately show ?case
    by (simp add: retryEvents_Cons attempts_def)
qed

lemma SearchAttempts_step:
  assumes "int i < maxRetries s"
  shows "SearchAttempts w s url (int i) le tr =
           (case attemptOutcome w url i of
              Inr doc \<Rightarrow>
                (Some doc, le, tr @ (if 0 < i then [Sleep (backoff (int i))] else []) @ [HttpGet url])
            | Inl e \<Rightarrow>
                SearchAttempts w s url (int (Suc i)) (Some e)
                  (tr @ (if 0 < i then [Sleep (backoff (int i))] else []) @ [HttpGet url]))"
  using assms
  by (subst SearchAttempts.simps)
     (simp add: attemptOutcome_def Let_def add.commute split: Response.split sum.split)

lemma SearchAttempts_stop:
  assumes "\<not> int i < maxRetries s"
  shows "SearchAttempts w s url (int i) le tr = (None, le, tr)"
  using assms by (subst SearchAttempts.simps) simp

lemma SearchAttempts_success:
  assumes "i \<le> k" "int k < maxRetries s" "attemptOutcome w url k = Inr doc"
      and "\<forall>j. i \<le> j \<and> j < k \<longrightarrow> isl (attemptOutcome w url j)"
  shows "SearchAttempts w s url (int i) le tr =
           (Some doc, (if i < k then Some (projl (attemptOutcome w url (k - 1))) else le),
            tr @ retryEvents url i (Suc k))"
  using assms
proof (induction "k - i" arbitrary: i le tr)
  case 0
  then have "i = k" by simp
  then show ?case
    using 0 by (simp add: SearchAttempts_step retryEvents_Cons)
next
  case (Suc d)
  then have lt: "i < k" by simp
  then have "isl (attemptOutcome w url i)" using Suc.prems by simp
  then obtain e where e: "attemptOutcome w url i = Inl e" by (cases "attemptOutcome w url i") auto
  have i: "int i < maxRetries s" using lt Suc.prems by simp
  have IH: "SearchAttempts w s url (int (Suc i)) (Some e)
              (tr @ (if 0 < i then [Sleep (backoff (int i))] else []) @ [HttpGet url]) =
            (Some doc, (if Suc i < k then Some (projl (attemptOutcome w url (k - 1))) else Some e),
             (tr @ (if 0 < i then [Sleep (backoff (int i))] else []) @ [HttpGet url])
               @ retryEvents url (Suc i) (Suc k))"
    using Suc.hyps(2) Suc.prems lt by (intro Suc.hyps(1)) auto
  have last: "\<not> Suc i < k \<Longrightarrow> projl (attemptOutcome w url (k - 1)) = e"
    using lt e by (cases "Suc i = k") auto
  have "SearchAttempts w s url (int i) le tr =
          SearchAttempts w s url (int (Suc i)) (Some e)
            (tr @ (if 0 < i then [Sleep (backoff (int i))] else []) @ [HttpGet url])"
    by (simp only: SearchAttempts_step[OF i] e sum.case)
  also note IH
  finally show ?case
    using lt last by (simp add: retryEvents_Cons[of i "Suc k"])
qed

lemma SearchAttempts_all_fail:
  assumes "\<forall>j. i \<le> j \<and> int j < maxRetries s \<longrightarrow> isl (attemptOutcome w url j)"
  shows "SearchAttempts w s url (int i) le tr =
           (None,
            (if int i < maxRetries s
             then Some (projl (attemptOutcome w url (nat (maxRetries s) - 1))) else le),
            tr @ retryEvents url i (nat (maxRetries s)))"
  using assms
proof (induction "nat (maxRetries s) - i" arbitrary: i le tr)
  case 0
  then have "\<not> int i < maxRetries s" by auto
  moreover have "nat (maxRetries s) \<le> i" using 0 by simp
  ultimately show ?case by (simp add: SearchAttempts_stop)
next
  case (Suc d)
  then have i: "int i < maxRetries s" by auto
  then have "isl (attemptOutcome w url i)" using Suc.prems by simp
  then obtain e where e: "attemptOutcome w url i = Inl e" by (cases "attemptOutcome w url i") auto
  have IH: "SearchAttempts w s url (int (Suc i)) (Some e)
              (tr @ (if 0 < i then [Sleep (backoff (int i))] else []) @ [HttpGet url]) =
            (None,
             (if int (Suc i) < maxRetries s
              then Some (projl (attemptOutcome w url (nat (maxRetries s) - 1))) else Some e),
             (tr @ (if 0 < i then [Sleep (backoff (int i))] else []) @ [HttpGet url])
               @ retryEvents url (Suc i) (nat (maxRetries s)))"
    using Suc.hyps(2) Suc.prems by (intro Suc.hyps(1)) auto
  have last: "\<not> int (Suc i) < maxRetries s \<Longrightarrow> projl (attemptOutcome w url (nat (maxRetries s) - 1)) = e"
  proof -
    assume "\<not> int (Suc i) < maxRetries s"
    then have "nat (maxRetries s) - 1 = i" using i by auto
    then show ?thesis using e by simp
  qed
  have lt: "i < nat (maxRetries s)" using i by auto
  have "SearchAttempts w s url (int i) le tr =
          SearchAttempts w s url (int (Suc i)) (Some e)
            (tr @ (if 0 < i then [Sleep (backoff (int i))] else []) @ [HttpGet url])"
    by (simp only: SearchAttempts_step[OF i] e sum.case)
  also note IH
  finally show ?case
    using lt last i by (simp add: retryEvents_Cons[of i "nat (maxRetries s)"])
qed

lemma retryEvents_pow:
  assumes "n \<le> 35"
  shows "retryEvents url 0 n =
           concat (map (\<lambda>k. (if 0 < k then [Sleep (2 ^ (k - 1) * 1000000000)] else []) @ [HttpGet url])
                     [0..<n])"
proof -
  have "\<forall>k\<in>set [0..<n]. (if 0 < k then [Sleep (backoff (int k))] else []) @ [HttpGet url]
          = (if 0 < k then [Sleep (2 ^ (k - 1) * 1000000000)] else []) @ [HttpGet url]"
    using assms by (auto simp: backoff_pow)
  then have "map (\<lambda>k. (if 0 < k then [Sleep (backoff (int k))] else []) @ [HttpGet url]) [0..<n]
      = map (\<lambda>k. (if 0 < k then [Sleep (2 ^ (k - 1) * 1000000000)] else []) @ [HttpGet url]) [0..<n]"
    by (intro map_cong[OF refl]) blast
  then show ?thesis unfolding retryEvents_def by (rule arg_cong)
qed

text \<open>
  C3. \<open>Search\<close> on a non-empty query, with \<open>maxRetries\<close> at most 35 (so that the
  back-off in nanoseconds fits 64 bits; \<open>New\<close> sets 3): it sends at most \<open>maxRetries\<close>
  requests; attempt 0 is sent at once and each attempt \<open>k \<ge> 1\<close> comes right after a sleep of
  \<open>2 ^ (k - 1)\<close> seconds; the loop stops at the first attempt that yields a parsed
  document (an attempt fails on a transport error, a status other than 200 or a parse
  failure), and the result is what \<open>parseResults\<close> extracts from that document; if every
  attempt fails the result is the error carrying \<open>maxRetries\<close> and the last failure, with
  no packages; and if the first two attempts get an error status and the third is parsed
  to one record, \<open>Search\<close> returns that one package after exactly 3 requests.
\<close>
theorem scraper_search_retries:
  fixes w :: "('b, 'doc) Web" and s :: Scraper and query :: string
  defines "url \<equiv> baseURL s @ ''/search?q='' @ QueryEscape w query"
  assumes "query \<noteq> []" and "maxRetries s \<le> 35"
  shows "\<exists>result trace. Scraper_Search w s query = (result, trace)
     \<and> int (attempts trace) \<le> max 0 (maxRetries s)
     \<and> trace = concat (map (\<lambda>k. (if 0 < k then [Sleep (2 ^ (k - 1) * 1000000000)] else [])
                                   @ [HttpGet url]) [0..<attempts trace])
     \<and> (\<forall>k doc. int k < maxRetries s \<and> attemptOutcome w url k = Inr doc
            \<and> (\<forall>j<k. isl (attemptOutcome w url j))
          \<longrightarrow> result = Inr (parseResults w doc) \<and> attempts trace = Suc k)
     \<and> ((\<forall>k. int k < maxRetries s \<longrightarrow> isl (attemptOutcome w url k))
          \<longrightarrow> result = Inl (FetchFailed (maxRetries s)
                   (if 0 < maxRetries s
                    then Some (projl (attemptOutcome w url (nat (maxRetries s) - 1))) else None))
              \<and> int (attempts trace) = max 0 (maxRetries s))
     \<and> (3 \<le> maxRetries s
          \<and> clientGet w url 0 = HTTPResponse codeA bodyA \<and> codeA \<noteq> 200
          \<and> clientGet w url 1 = HTTPResponse codeB bodyB \<and> codeB \<noteq> 200
          \<and> clientGet w url 2 = HTTPResponse 200 bodyC
          \<and> NewDocumentFromReader w bodyC = Inr docC \<and> parseResults w docC = [pkg]
          \<longrightarrow> result = Inr [pkg] \<and> attempts trace = 3)"
proof (cases "\<exists>k. int k < maxRetries s \<and> \<not> isl (attemptOutcome w url k)")
  case True
  then obtain k where k: "int k < maxRetries s" "\<not> isl (attemptOutcome w url k)"
    and least: "\<forall>j<k. \<not> (int j < maxRetries s \<and> \<not> isl (attemptOutcome w url j))"
    using exists_least_iff[of "\<lambda>k. int k < maxRetries s \<and> \<not> isl (attemptOutcome w url k)"] by blast
  from k(2) obtain doc where doc: "attemptOutcome w url k = Inr doc"
    by (cases "attemptOutcome w url k") auto
  have fails: "\<forall>j. 0 \<le> j \<and> j < k \<longrightarrow> isl (attemptOutcome w url j)"
  proof (intro allI impI)
    fix j assume j: "0 \<le> j \<and> j < k"
    then have "int j < maxRetries s" using k(1) by simp
    then show "isl (attemptOutcome w url j)" using least j by blast
  qed
  let ?le = "if 0 < k then Some (projl (attemptOutcome w url (k - 1))) else None"
  have run: "SearchAttempts w s url 0 None [] = (Some doc, ?le, retryEvents url 0 (Suc k))"
    using SearchAttempts_success[OF _ k(1) doc fails, of None "[]"] by simp
  have res: "Scraper_Search w s query = (Inr (parseResults w doc), retryEvents url 0 (Suc k))"
    using assms(2) run by (simp add: Scraper_Search_def url_def Let_def)
  have kb: "Suc k \<le> 35" using k(1) assms(3) by simp
  have uniq: "\<And>k' doc'. int k' < maxRetries s \<Longrightarrow> attemptOutcome w url k' = Inr doc'
                 \<Longrightarrow> (\<forall>j<k'. isl (attemptOutcome w url j)) \<Longrightarrow> k' = k \<and> doc' = doc"
  proof -
    fix k' doc'
    assume a: "int k' < maxRetries s" "attemptOutcome w url k' = Inr doc'"
       "\<forall>j<k'. isl (attemptOutcome w url j)"
    have "\<not> k < k'" using a(3) doc by auto
    moreover have "\<not> k' < k" using fails a(2) by auto
    ultimately have "k' = k" by simp
    then show "k' = k \<and> doc' = doc" using a(2) doc by simp
  qed
  have notall: "\<not> (\<forall>k. int k < maxRetries s \<longrightarrow> isl (attemptOutcome w url k))"
    using k doc by auto
  have scen: "3 \<le> maxRetries s
          \<and> clientGet w url 0 = HTTPResponse codeA bodyA \<and> codeA \<noteq> 200
          \<and> clientGet w url 1 = HTTPResponse codeB bodyB \<and> codeB \<noteq> 200
          \<and> clientGet w url 2 = HTTPResponse 200 bodyC
          \<and> NewDocumentFromReader w bodyC = Inr docC \<and> parseResults w docC = [pkg]
          \<longrightarrow> k = 2 \<and> parseResults w doc = [pkg]"
  proof (intro impI, elim conjE)
    assume a: "3 \<le> maxRetries s" "clientGet w url 0 = HTTPResponse codeA bodyA" "codeA \<noteq> 200"
      "clientGet w url 1 = HTTPResponse codeB bodyB" "codeB \<noteq> 200"
      "clientGet w url 2 = HTTPResponse 200 bodyC"
      "NewDocumentFromReader w bodyC = Inr docC" "parseResults w docC = [pkg]"
    have o2: "attemptOutcome w url 2 = Inr docC" using a by (simp add: attemptOutcome_def)
    have o0: "isl (attemptOutcome w url 0)" using a by (simp add: attemptOutcome_def)
    have o1: "isl (attemptOutcome w url 1)" using a by (simp add: attemptOutcome_def)
    have "\<forall>j<2. isl (attemptOutcome w url j)"
    proof (intro allI impI)
      fix j :: nat assume "j < 2"
      then have "j = 0 \<or> j = 1" by auto
      then show "isl (attemptOutcome w url j)" using o0 o1 by auto
    qed
    then have "2 = k \<and> docC = doc" using uniq[of 2 docC] a(1) o2 by simp
    then show "k = 2 \<and> parseResults w doc = [pkg]" using a(8) by simp
  qed
  let ?tr = "retryEvents url 0 (Suc k)"
  let ?res = "Inr (parseResults w doc) :: SearchError + Package list"
  have codeB: "int (attempts ?tr) \<le> max 0 (maxRetries s)"
    using k(1) by simp
  have c2: "?tr = concat (map (\<lambda>k. (if 0 < k then [Sleep (2 ^ (k - 1) * 1000000000)] else [])
                                   @ [HttpGet url]) [0..<attempts ?tr])"
    by (subst attempts_retryEvents) (simp only: diff_zero retryEvents_pow[OF kb])
  have c3: "\<forall>k' doc'. int k' < maxRetries s \<and> attemptOutcome w url k' = Inr doc'
            \<and> (\<forall>j<k'. isl (attemptOutcome w url j))
          \<longrightarrow> ?res = Inr (parseResults w doc') \<and> attempts ?tr = Suc k'"
    using uniq by simp blast
  have c4: "(\<forall>k. int k < maxRetries s \<longrightarrow> isl (attemptOutcome w url k))
          \<longrightarrow> ?res = Inl (FetchFailed (maxRetries s)
                   (if 0 < maxRetries s
                    then Some (projl (attemptOutcome w url (nat (maxRetries s) - 1))) else None))
              \<and> int (attempts ?tr) = max 0 (maxRetries s)"
    using notall by blast
  have c5: "3 \<le> maxRetries s
          \<and> clientGet w url 0 = HTTPResponse codeA bodyA \<and> codeA \<noteq> 200
          \<and> clientGet w url 1 = HTTPResponse codeB bodyB \<and> codeB \<noteq> 200
          \<and> clientGet w url 2 = HTTPResponse 200 bodyC
          \<and> NewDocumentFromReader w bodyC = Inr docC \<and> parseResults w docC = [pkg]
          \<longrightarrow> ?res = Inr [pkg] \<and> attempts ?tr = 3"
    using scen by simp
  show ?thesis
    using res codeB c2 c3 c4 c5 by blast
next
  case False
  then have fails: "\<forall>j. 0 \<le> j \<and> int j < maxRetries s \<longrightarrow> isl (attemptOutcome w url j)"
    by blast
  let ?n = "nat (maxRetries s)"
  let ?le = "if 0 < maxRetries s then Some (projl (attemptOutcome w url (?n - 1))) else None"
  have run: "SearchAttempts w s url 0 None [] = (None, ?le, retryEvents url 0 ?n)"
    using SearchAttempts_all_fail[OF fails, of None "[]"] by simp
  have res: "Scraper_Search w s query = (Inl (FetchFailed (maxRetries s) ?le), retryEvents url 0 ?n)"
    using assms(2) run by (simp add: Scraper_Search_def url_def Let_def)
  have nb: "?n \<le> 35" using assms(3) by simp
  have nosucc: "\<And>k doc. int k < maxRetries s \<Longrightarrow> attemptOutcome w url k \<noteq> Inr doc"
    using False by auto
  have scen: "\<not> (3 \<le> maxRetries s \<and> clientGet w url 2 = HTTPResponse 200 bodyC
          \<and> NewDocumentFromReader w bodyC = Inr docC)"
  proof
    assume a: "3 \<le> maxRetries s \<and> clientGet w url 2 = HTTPResponse 200 bodyC
          \<and> NewDocumentFromReader w bodyC = Inr docC"
    then have "attemptOutcome w url 2 = Inr docC" by (simp add: attemptOutcome_def)
    then show False using nosucc[of 2 docC] a by simp
  qed
  let ?tr = "retryEvents url 0 ?n"
  let ?res = "Inl (FetchFailed (maxRetries s) ?le) :: SearchError + Package list"
  have codeB: "int (attempts ?tr) \<le> max 0 (maxRetries s)"
    by simp
  have c2: "?tr = concat (map (\<lambda>k. (if 0 < k then [Sleep (2 ^ (k - 1) * 1000000000)] else [])
                                   @ [HttpGet url]) [0..<attempts ?tr])"
    by (subst attempts_retryEvents) (simp only: diff_zero retryEvents_pow[OF nb])
  have c3: "\<forall>k' doc'. int k' < maxRetries s \<and> attemptOutcome w url k' = Inr doc'
            \<and> (\<forall>j<k'. isl (attemptOutcome w url j))
          \<longrightarrow> ?res = Inr (parseResults w doc') \<and> attempts ?tr = Suc k'"
    using nosucc by blast
  have c4: "(\<forall>k. int k < maxRetries s \<longrightarrow> isl (attemptOutcome w url k))
          \<longrightarrow> ?res = Inl (FetchFailed (maxRetries s)
                   (if 0 < maxRetries s
                    then Some (projl (attemptOutcome w url (nat (maxRetries s) - 1))) else None))
              \<and> int (attempts ?tr) = max 0 (maxRetries s)"
    by simp
  have c5: "3 \<le> maxRetries s
          \<and> clientGet w url 0 = HTTPResponse codeA bodyA \<and> codeA \<noteq> 200
          \<and> clientGet w url 1 = HTTPResponse codeB bodyB \<and> codeB \<noteq> 200
          \<and> clientGet w url 2 = HTTPResponse 200 bodyC
          \<and> NewDocumentFromReader w bodyC = Inr docC \<and> parseResults w docC = [pkg]
          \<longrightarrow> ?res = Inr [pkg] \<and> attempts ?tr = 3"
    using scen by blast
  show ?thesis
    using res codeB c2 c3 c4 c5 by blast
qed

theorem scraper_search_retries_witness:
  "''test'' \<noteq> [] \<and> maxRetries \<lparr>maxRetries = 3, baseURL = ''http://srv''\<rparr> \<le> 35
   \<and> Scraper_Search failTwiceServer \<lparr>maxRetries = 3, baseURL = ''http://srv''\<rparr> ''test'' =
       (Inr [testPkg],
        [HttpGet ''http://srv/search?q=test'', Sleep 1000000000,
         HttpGet ''http://srv/search?q=test'', Sleep 2000000000,
         HttpGet ''http://srv/search?q=test''])
   \<and> attempts [HttpGet ''http://srv/search?q=test'', Sleep 1000000000,
         HttpGet ''http://srv/search?q=test'', Sleep 2000000000,
         HttpGet ''http://srv/search?q=test''] = 3
   \<and> Scraper_Search alwaysFailServer \<lparr>maxRetries = 3, baseURL = ''http://srv''\<rparr> ''test'' =
       (Inl (FetchFailed 3 (Some (ErrStatusCode 503))),
        [HttpGet ''http://srv/search?q=test'', Sleep 1000000000,
         HttpGet ''http://srv/search?q=test'', Sleep 2000000000,
         HttpGet ''http://srv/search?q=test''])"
proof -
  let ?s = "\<lparr>maxRetries = 3, baseURL = ''http://srv''\<rparr>"
  have q: "''test'' \<noteq> []" by simp
  have m: "maxRetries ?s \<le> 35" by simp
  have b1: "backoff 1 = 1000000000" by (simp add: backoff_def)
  have b2: "backoff 2 = 2000000000" by (simp add: backoff_def)
  have a: "Scraper_Search failTwiceServer ?s ''test'' =
       (Inr [testPkg],
        [HttpGet ''http://srv/search?q=test'', Sleep 1000000000,
         HttpGet ''http://srv/search?q=test'', Sleep 2000000000,
         HttpGet ''http://srv/search?q=test''])"
    by (simp add: Scraper_Search_def SearchAttempts.simps failTwiceServer_def b1 b2 Let_def)
  have n: "attempts [HttpGet ''http://srv/search?q=test'', Sleep 1000000000,
         HttpGet ''http://srv/search?q=test'', Sleep 2000000000,
         HttpGet ''http://srv/search?q=test''] = 3"
    by (simp add: attempts_def)
  have b: "Scraper_Search alwaysFailServer ?s ''test'' =
       (Inl (FetchFailed 3 (Some (ErrStatusCode 503))),
        [HttpGet ''http://srv/search?q=test'', Sleep 1000000000,
         HttpGet ''http://srv/search?q=test'', Sleep 2000000000,
         HttpGet ''http://srv/search?q=test''])"
    by (simp add: Scraper_Search_def SearchAttempts.simps alwaysFailServer_def b1 b2 Let_def)
  note inst = scraper_search_retries[OF q m, where w = failTwiceServer]
  show ?thesis
    using inst q m a n b by - (intro conjI; assumption)
qed

section \<open>Properties of the session state machine\<close>

lemma session_inv_New: "session_inv (New h)"
  by (simp add: session_inv_def New_def)

lemma getSelectedLoop_eq:
  assumes "\<forall>i. selected m i = Some True \<longrightarrow> 0 \<le> i"
  shows "getSelectedLoop m order sel =
           Inr (sel @ map (\<lambda>idx. packages m ! nat idx)
                        (filter (\<lambda>idx. selected m idx = Some True
                                   \<and> idx < int (length (packages m))) order))"
  using assms by (induction order arbitrary: sel) auto

lemma session_inv_selected_nonneg:
  "session_inv m \<Longrightarrow> \<forall>i. selected m i = Some True \<longrightarrow> 0 \<le> i"
  by (auto simp: session_inv_def dom_def)

lemma getSelectedPackages_eq:
  assumes "session_inv m"
  shows "getSelectedPackages env m =
           Inr (map (\<lambda>idx. packages m ! nat idx)
                  (filter (\<lambda>idx. selected m idx = Some True \<and> idx < int (length (packages m)))
                     (rangeOrder env (selected m))))"
  using getSelectedLoop_eq[OF session_inv_selected_nonneg[OF assms], of "rangeOrder env (selected m)" "[]"]
  by (simp add: getSelectedPackages_def)

lemma dom_fold_select:
  "dom (fold (\<lambda>i sel. sel(int i \<mapsto> True)) xs sel) = dom sel \<union> int ` set xs"
  by (induction xs arbitrary: sel) auto

lemma session_inv_selectAll: "session_inv m \<Longrightarrow> session_inv (selectAll m)"
  by (auto simp: session_inv_def selectAll_def dom_fold_select)

lemma session_inv_cong:
  "session_inv m \<Longrightarrow> cursor m' = cursor m \<Longrightarrow> packages m' = packages m
     \<Longrightarrow> selected m' = selected m \<Longrightarrow> session_inv m'"
  by (simp add: session_inv_def)

lemma session_inv_clear_packages:
  "session_inv m \<Longrightarrow> cursor m' = cursor m \<or> cursor m' = 0 \<Longrightarrow> packages m' = []
     \<Longrightarrow> selected m' = selected m \<Longrightarrow> session_inv m'"
  by (auto simp: session_inv_def)

lemma session_inv_handleEnter:
  assumes "session_inv m" "handleEnter env m = Inr (m', cmd)"
  shows "session_inv m'"
proof -
  let ?m1 = "m\<lparr>selected := (selected m)(cursor m \<mapsto> True)\<rparr>"
  have inv1: "cursor m < int (length (packages m)) \<Longrightarrow> session_inv ?m1"
    using assms(1) by (auto simp: session_inv_def)
  have "cursor m' = cursor m \<and> packages m' = packages m
        \<and> (selected m' = selected m \<or>
            (cursor m < int (length (packages m)) \<and> selected m' = selected ?m1))"
    using assms(2)
    by (auto simp: handleEnter_def Let_def split: sum.splits if_splits prod.splits)
  then show ?thesis
    using assms(1) inv1 by (auto intro: session_inv_cong[of m] session_inv_cong[of ?m1])
qed

lemma session_inv_handleSearchRunes:
  assumes "session_inv m" "handleSearchRunes env k m = (m', cmd)"
  shows "session_inv m'"
proof -
  have "(cursor m' = cursor m \<and> packages m' = packages m \<and> selected m' = selected m)
        \<or> m' = selectAll m \<or> m' = m\<lparr>selected := Map.empty\<rparr>"
    using assms(2)
    by (auto simp: handleSearchRunes_def split: if_splits option.splits)
  moreover have "session_inv (m\<lparr>selected := Map.empty\<rparr>)"
    using assms(1) by (simp add: session_inv_def)
  ultimately show ?thesis
    using assms(1) session_inv_selectAll[of m] by (auto intro: session_inv_cong[of m])
qed

lemma session_inv_handleSearchKeys:
  assumes "session_inv m" "handleSearchKeys env k m = Inr (m', cmd)"
  shows "session_inv m'"
proof (cases "Type k")
  case KeyEnter
  then show ?thesis
    using assms session_inv_handleEnter[of m env m' cmd]
    by (auto simp: handleSearchKeys_def session_inv_def split: if_splits)
next
  case KeyRunes
  then show ?thesis
    using assms session_inv_handleSearchRunes[of m env k m' cmd]
    by (cases "handleSearchRunes env k m") (auto simp: handleSearchKeys_def)
next
  case KeyCtrlA
  then show ?thesis
    using assms session_inv_selectAll[of m] by (auto simp: handleSearchKeys_def)
qed (use assms in \<open>auto simp: handleSearchKeys_def session_inv_def split: if_splits\<close>)

lemma session_inv_handleOptionsKeys:
  assumes "session_inv m" "handleOptionsKeys env k m = Inr (m', cmd)"
  shows "session_inv m'"
proof -
  have "cursor m' = cursor m \<and> packages m' = packages m \<and> selected m' = selected m"
    using assms(2)
    by (auto simp: handleOptionsKeys_def Let_def split: if_splits sum.splits)
  then show ?thesis using assms(1) by (auto intro: session_inv_cong[of m])
qed

lemma session_inv_handleCommandsKeys:
  assumes "session_inv m" "handleCommandsKeys k m = (m', cmd)"
  shows "session_inv m'"
proof -
  have "cursor m' = cursor m \<and> packages m' = packages m \<and> selected m' = selected m"
    using assms(2) by (auto simp: handleCommandsKeys_def split: if_splits)
  then show ?thesis using assms(1) by (auto intro: session_inv_cong[of m])
qed

lemma session_inv_handleSearchResults:
  "session_inv m \<Longrightarrow> session_inv (handleSearchResults pkgs cached err m)"
  by (auto simp: handleSearchResults_def session_inv_def Let_def split: option.splits)

lemma session_inv_updateSearchInput:
  assumes "session_inv m" "updateSearchInput env msg m cmds = (m', cmds')"
  shows "session_inv m'"
proof -
  have "cursor m' = cursor m \<and> selected m' = selected m
        \<and> (packages m' = packages m \<or> packages m' = [])"
    using assms(2)
    by (auto simp: updateSearchInput_def debounceSearch_def Let_def split: if_splits prod.splits)
  then show ?thesis
    using assms(1) by (auto intro: session_inv_cong[of m] session_inv_clear_packages[of m])
qed

lemma session_inv_Update:
  assumes "session_inv m" "Update env msg m = Inr (m', cmds)"
  shows "session_inv m'"
proof (cases msg)
  case (WindowSizeMsg w h)
  have "session_inv (m\<lparr>width := w, height := h\<rparr>)"
    using assms(1) by (simp add: session_inv_def)
  then show ?thesis
    using assms(2) WindowSizeMsg
    by (auto simp: Update_def dest: session_inv_updateSearchInput)
next
  case (KeyMsg k)
  show ?thesis
  proof (cases "viewState m")
    case ViewSearch
    show ?thesis
    proof (cases "showHelp m")
      case True
      then have "m' = m\<lparr>showHelp := False\<rparr>"
        using assms(2) KeyMsg ViewSearch by (simp add: Update_def)
      then show ?thesis using assms(1) by (simp add: session_inv_def)
    next
      case False
      then obtain m1 cmd where h: "handleSearchKeys env k m = Inr (m1, cmd)"
        and u: "updateSearchInput env msg m1 (cmdList cmd) = (m', cmds)"
        using assms(2) KeyMsg ViewSearch
        by (auto simp: Update_def split: sum.splits)
      then show ?thesis
        using assms(1) session_inv_handleSearchKeys session_inv_updateSearchInput by blast
    qed
  next
    case ViewOptions
    then obtain m1 cmd where h: "handleOptionsKeys env k m = Inr (m1, cmd)"
      and u: "updateSearchInput env msg m1 (cmdList cmd) = (m', cmds)"
      using assms(2) KeyMsg by (auto simp: Update_def split: sum.splits)
    then show ?thesis
      using assms(1) session_inv_handleOptionsKeys session_inv_updateSearchInput by blast
  next
    case ViewCommands
    then obtain m1 cmd where h: "handleCommandsKeys k m = (m1, cmd)"
      and u: "updateSearchInput env msg m1 (cmdList cmd) = (m', cmds)"
      using assms(2) KeyMsg by (auto simp: Update_def split: prod.splits)
    then show ?thesis
      using assms(1) session_inv_handleCommandsKeys session_inv_updateSearchInput by blast
  next
    case ViewInstalling
    then show ?thesis
      using assms KeyMsg by (auto simp: Update_def dest: session_inv_updateSearchInput)
  next
    case ViewHelp
    then show ?thesis
      using assms KeyMsg by (auto simp: Update_def dest: session_inv_updateSearchInput)
  qed
next
  case (searchResultsMsg pkgs cached err)
  then show ?thesis
    using assms(2) session_inv_handleSearchResults[OF assms(1), of pkgs cached err]
    by (auto simp: Update_def dest: session_inv_updateSearchInput)
next
  case (installProgressMsg msgText fin)
  let ?m1 = "m\<lparr>installMessage := msgText\<rparr>"
  let ?m2 = "if fin
             then ?m1\<lparr>viewState := ViewSearch, installing := False,
                     message := ''Installation completed successfully!'',
                     messageType := ''success'', selected := Map.empty,
                     packages := MarkInstalledPackages env (packages ?m1)\<rparr>
             else ?m1"
  have "session_inv ?m2"
    using assms(1) by (auto simp: session_inv_def MarkInstalledPackages_def)
  moreover have "updateSearchInput env msg ?m2 [] = (m', cmds)"
    using assms(2) installProgressMsg by (simp add: Update_def Let_def)
  ultimately show ?thesis by (rule session_inv_updateSearchInput)
next
  case (installErrorMsg err)
  let ?m1 = "m\<lparr>viewState := ViewSearch, installing := False,
                message := ''Installation failed: '' @ err, messageType := ''error''\<rparr>"
  have "session_inv ?m1" using assms(1) by (simp add: session_inv_def)
  moreover have "updateSearchInput env msg ?m1 [] = (m', cmds)"
    using assms(2) installErrorMsg by (simp add: Update_def)
  ultimately show ?thesis by (rule session_inv_updateSearchInput)
next
  case OtherMsg
  then show ?thesis
    using assms by (auto simp: Update_def dest: session_inv_updateSearchInput)
qed

lemma session_inv_run:
  "session_inv m \<Longrightarrow> run evs m = Inr m' \<Longrightarrow> session_inv m'"
proof (induction evs arbitrary: m)
  case Nil
  then show ?case by simp
next
  case (Cons ev evs)
  obtain env msg where ev: "ev = (env, msg)" by (cases ev)
  from Cons.prems(2) obtain m1 cmds where u: "Update env msg m = Inr (m1, cmds)"
    and r: "run evs m1 = Inr m'"
    by (auto simp: ev split: sum.splits)
  from session_inv_Update[OF Cons.prems(1) u] r show ?case by (rule Cons.IH)
qed

lemma session_inv_reachable: "run evs (New h) = Inr m \<Longrightarrow> session_inv m"
  using session_inv_New by (rule session_inv_run)

lemma run_twoResults:
  "run [(typingEnv, keyRunes ''a''), (typingEnv, searchResultsMsg [cobra, viper] False None)]
     (New emptyHistory) = Inr twoResults"
  by (simp add: Update_def handleSearchKeys_def handleSearchRunes_def updateSearchInput_def
      debounceSearch_def handleSearchResults_def New_def typingEnv_def keyRunes_def
      twoResults_def Let_def)

lemma Update_Tab: "Update typingEnv keyTab twoResults = Inr (firstSelected, [])"
  by (simp add: Update_def handleSearchKeys_def updateSearchInput_def New_def typingEnv_def
      keyTab_def twoResults_def firstSelected_def Let_def)

lemma Update_Down: "Update typingEnv keyDown twoResults = Inr (cursorOnSecond, [])"
  by (auto simp add: Update_def handleSearchKeys_def updateSearchInput_def New_def typingEnv_def
      keyDown_def twoResults_def cursorOnSecond_def Let_def)

lemma Update_Enter: "Update typingEnv keyEnter firstSelected = Inr (optionsOpen, [])"
  by (simp add: Update_def handleSearchKeys_def handleEnter_def getSelectedPackages_def
      History_Add_def isDuplicate_def readEntries_def writeEntries_def marshalableTime_def
      jsonEntry_def updateSearchInput_def New_def typingEnv_def
      keyEnter_def twoResults_def firstSelected_def optionsOpen_def emptyHistory_def
      cobra_def viper_def Let_def)

lemma run_append:
  "run evs m = Inr m1 \<Longrightarrow> run evs' m1 = r \<Longrightarrow> run (evs @ evs') m = r"
  by (induction evs arbitrary: m) (auto split: sum.splits)

lemma run_single: "Update env msg m = Inr (m1, cmds) \<Longrightarrow> run [(env, msg)] m = Inr m1"
  by simp

lemma run_firstSelected:
  "run [(typingEnv, keyRunes ''a''), (typingEnv, searchResultsMsg [cobra, viper] False None),
        (typingEnv, keyTab)] (New emptyHistory) = Inr firstSelected"
  using run_append[OF run_twoResults run_single[OF Update_Tab]] by simp

lemma run_cursorOnSecond:
  "run [(typingEnv, keyRunes ''a''), (typingEnv, searchResultsMsg [cobra, viper] False None),
        (typingEnv, keyDown)] (New emptyHistory) = Inr cursorOnSecond"
  using run_append[OF run_twoResults run_single[OF Update_Down]] by simp

lemma run_optionsOpen:
  "run [(typingEnv, keyRunes ''a''), (typingEnv, searchResultsMsg [cobra, viper] False None),
        (typingEnv, keyTab), (typingEnv, keyEnter)] (New emptyHistory) = Inr optionsOpen"
  using run_append[OF run_firstSelected run_single[OF Update_Enter]] by simp


lemma run_optionsOpenInstalled:
  "run [(typingEnv, keyRunes ''a''), (typingEnv, searchResultsMsg [cobra, viper] False None),
        (typingEnv, keyDown), (typingEnv, keyTab), (typingEnv, keyEnter)] (New emptyHistory)
     = Inr optionsOpenInstalled"
proof -
  have "run [(typingEnv, keyTab), (typingEnv, keyEnter)] cursorOnSecond = Inr optionsOpenInstalled"
    by (simp add: Update_def handleSearchKeys_def handleEnter_def getSelectedPackages_def
      History_Add_def isDuplicate_def readEntries_def writeEntries_def marshalableTime_def
      jsonEntry_def updateSearchInput_def New_def typingEnv_def
      keyEnter_def keyTab_def twoResults_def cursorOnSecond_def optionsOpenInstalled_def
      emptyHistory_def cobra_def viper_def Let_def)
  from run_append[OF run_cursorOnSecond this] show ?thesis by simp
qed

lemma Update_searchResults:
  "\<exists>m' cmds. Update env (searchResultsMsg pkgs cached None) m = Inr (m', cmds)
      \<and> selected m' = Map.empty \<and> cursor m' = 0"
  by (auto simp: Update_def handleSearchResults_def updateSearchInput_def debounceSearch_def
      Let_def)

lemma Update_Esc_clear:
  assumes "viewState m = ViewSearch" "\<not> showHelp m" "searchInput m \<noteq> []" "Type k = KeyEsc"
  shows "\<exists>m' cmds. Update env (KeyMsg k) m = Inr (m', cmds)
      \<and> packages m' = [] \<and> cursor m' = 0 \<and> selected m' = selected m"
  using assms
  by (auto simp: Update_def handleSearchKeys_def updateSearchInput_def debounceSearch_def
      Let_def)

lemma debounceSearch_empty:
  "searchInput m = [] \<Longrightarrow>
     packages (fst (debounceSearch m)) = [] \<and> cursor (fst (debounceSearch m)) = cursor m
     \<and> selected (fst (debounceSearch m)) = selected m"
  by (simp add: debounceSearch_def Let_def)

lemma GetInstallCommand_empty_iff:
  "GetInstallCommand sel = [] \<longleftrightarrow> (\<forall>pkg\<in>set sel. IsInstalled pkg)"
  by (simp add: GetInstallCommand_eq)

lemma updateSearchInput_ViewOptions:
  "viewState m = ViewOptions \<Longrightarrow> updateSearchInput env msg m cmds = (m, cmds)"
  by (simp add: updateSearchInput_def)

lemma updateSearchInput_keeps:
  "\<exists>m' cmds'. updateSearchInput env msg m [] = (m', cmds')
      \<and> viewState m' = viewState m \<and> message m' = message m
      \<and> messageType m' = messageType m \<and> quitWithCommands m' = quitWithCommands m
      \<and> commandsToPrint m' = commandsToPrint m \<and> Quit \<notin> set cmds'"
  by (auto simp: updateSearchInput_def debounceSearch_def Let_def)

text \<open>
  C1 (amended). In every state a session can reach, every selected index is not
  negative, and whenever the result list is not empty it is a valid index into it. The
  selected set is emptied by a search-results message without error. Escape-clear of the
  query and \<open>debounceSearch\<close> on an empty query empty the result list and leave the
  selected set as it is.
\<close>
theorem selected_indices_valid_while_results_present:
  assumes "run evs (New h) = Inr m"
  shows "(\<forall>i. selected m i = Some True \<longrightarrow>
            0 \<le> i \<and> (packages m \<noteq> [] \<longrightarrow> i < int (length (packages m))))
       \<and> (\<exists>m' cmds. Update env (searchResultsMsg pkgs cached None) m = Inr (m', cmds)
             \<and> selected m' = Map.empty)
       \<and> (viewState m = ViewSearch \<and> \<not> showHelp m \<and> searchInput m \<noteq> [] \<and> Type k = KeyEsc
            \<longrightarrow> (\<exists>m' cmds. Update env (KeyMsg k) m = Inr (m', cmds)
                   \<and> packages m' = [] \<and> selected m' = selected m))
       \<and> (searchInput m = [] \<longrightarrow>
             packages (fst (debounceSearch m)) = []
             \<and> selected (fst (debounceSearch m)) = selected m)"
proof -
  have inv: "session_inv m" using assms by (rule session_inv_reachable)
  have a: "\<forall>i. selected m i = Some True \<longrightarrow>
            0 \<le> i \<and> (packages m \<noteq> [] \<longrightarrow> i < int (length (packages m)))"
    using inv by (auto simp: session_inv_def dom_def)
  have b: "\<exists>m' cmds. Update env (searchResultsMsg pkgs cached None) m = Inr (m', cmds)
             \<and> selected m' = Map.empty"
    using Update_searchResults[of env pkgs cached m] by blast
  have c: "viewState m = ViewSearch \<and> \<not> showHelp m \<and> searchInput m \<noteq> [] \<and> Type k = KeyEsc
            \<longrightarrow> (\<exists>m' cmds. Update env (KeyMsg k) m = Inr (m', cmds)
                   \<and> packages m' = [] \<and> selected m' = selected m)"
    using Update_Esc_clear[of m k env] by blast
  have d: "searchInput m = [] \<longrightarrow>
             packages (fst (debounceSearch m)) = []
             \<and> selected (fst (debounceSearch m)) = selected m"
    using debounceSearch_empty[of m] by blast
  show ?thesis using a b c d by blast
qed

theorem selected_indices_valid_while_results_present_witness:
  "run [(typingEnv, keyRunes ''a''), (typingEnv, searchResultsMsg [cobra, viper] False None),
        (typingEnv, keyTab)] (New emptyHistory) = Inr firstSelected
   \<and> selected firstSelected 0 = Some True
   \<and> packages firstSelected \<noteq> []
   \<and> (0::int) < int (length (packages firstSelected))
   \<and> (\<exists>m' cmds. Update typingEnv (searchResultsMsg [gin] False None) firstSelected = Inr (m', cmds)
             \<and> selected m' = Map.empty)"
proof -
  have s: "selected firstSelected 0 = Some True"
    by (simp add: firstSelected_def)
  have p: "packages firstSelected \<noteq> []"
    by (simp add: firstSelected_def twoResults_def)
  note inst = selected_indices_valid_while_results_present[OF run_firstSelected,
      of typingEnv "[gin]" False "\<lparr>Type = KeyEsc, Runes = [], String = ''esc''\<rparr>"]
  from inst s p have v: "(0::int) < int (length (packages firstSelected))" by blast
  from inst have r: "\<exists>m' cmds. Update typingEnv (searchResultsMsg [gin] False None) firstSelected
             = Inr (m', cmds) \<and> selected m' = Map.empty" by blast
  show ?thesis using run_firstSelected s p v r by blast
qed

text \<open>
  C1 as stated fails after escape-clear: with two results and the first selected, Escape
  empties the result list and keeps index 0 selected, which is no index into the empty
  list.
\<close>
theorem selected_indices_stale_after_escape_counterexample:
  "run [(typingEnv, keyRunes ''a''), (typingEnv, searchResultsMsg [cobra, viper] False None),
        (typingEnv, keyTab)] (New emptyHistory) = Inr firstSelected
   \<and> Update typingEnv keyEsc firstSelected = Inr ((New emptyHistory)\<lparr>selected := [0 \<mapsto> True]\<rparr>, [])
   \<and> packages ((New emptyHistory)\<lparr>selected := [0 \<mapsto> True]\<rparr>) = []
   \<and> selected ((New emptyHistory)\<lparr>selected := [0 \<mapsto> True]\<rparr>) 0 = Some True"
proof -
  have u: "Update typingEnv keyEsc firstSelected = Inr ((New emptyHistory)\<lparr>selected := [0 \<mapsto> True]\<rparr>, [])"
    by (simp add: Update_def handleSearchKeys_def updateSearchInput_def New_def typingEnv_def
      keyEsc_def twoResults_def firstSelected_def Let_def)
  show ?thesis using run_firstSelected u by (simp add: New_def)
qed

text \<open>
  C9. In every state a session can reach, \<open>getSelectedPackages\<close> does not panic: it returns
  the packages at the selected indices that lie within the result list, in the order the
  keys are visited, each read at an index from 0 up to the length; every selected index
  at or beyond the length is skipped, so with an empty result list the answer is empty
  even when stale indices remain selected.
\<close>
theorem selected_packages_never_out_of_bounds:
  assumes "run evs (New h) = Inr m"
  shows "getSelectedPackages env m =
           Inr (map (\<lambda>idx. packages m ! nat idx)
                  (filter (\<lambda>idx. selected m idx = Some True \<and> 0 \<le> idx
                             \<and> idx < int (length (packages m)))
                     (rangeOrder env (selected m))))
         \<and> (packages m = [] \<longrightarrow> getSelectedPackages env m = Inr [])"
proof -
  have inv: "session_inv m" using assms by (rule session_inv_reachable)
  have f: "filter (\<lambda>idx. selected m idx = Some True \<and> idx < int (length (packages m)))
             (rangeOrder env (selected m))
         = filter (\<lambda>idx. selected m idx = Some True \<and> 0 \<le> idx \<and> idx < int (length (packages m)))
             (rangeOrder env (selected m))"
    using session_inv_selected_nonneg[OF inv] by (intro filter_cong) auto
  have a: "getSelectedPackages env m =
           Inr (map (\<lambda>idx. packages m ! nat idx)
                  (filter (\<lambda>idx. selected m idx = Some True \<and> 0 \<le> idx
                             \<and> idx < int (length (packages m)))
                     (rangeOrder env (selected m))))"
    using getSelectedPackages_eq[OF inv, of env] unfolding f .
  have b: "packages m = [] \<longrightarrow> getSelectedPackages env m = Inr []"
    using a by (auto simp: filter_empty_conv)
  show ?thesis using a b by blast
qed

theorem selected_packages_never_out_of_bounds_witness:
  "run [(typingEnv, keyRunes ''a''), (typingEnv, searchResultsMsg [cobra, viper] False None),
        (typingEnv, keyTab), (typingEnv, keyEsc)] (New emptyHistory)
     = Inr ((New emptyHistory)\<lparr>selected := [0 \<mapsto> True]\<rparr>)
   \<and> packages ((New emptyHistory)\<lparr>selected := [0 \<mapsto> True]\<rparr>) = []
   \<and> selected ((New emptyHistory)\<lparr>selected := [0 \<mapsto> True]\<rparr>) 0 = Some True
   \<and> getSelectedPackages typingEnv ((New emptyHistory)\<lparr>selected := [0 \<mapsto> True]\<rparr>) = Inr []
   \<and> getSelectedPackages typingEnv firstSelected = Inr [cobra]"
proof -
  let ?stale = "(New emptyHistory)\<lparr>selected := [0 \<mapsto> True]\<rparr>"
  have u: "Update typingEnv keyEsc firstSelected = Inr (?stale, [])"
    by (simp add: Update_def handleSearchKeys_def updateSearchInput_def New_def typingEnv_def
      keyEsc_def twoResults_def firstSelected_def Let_def)
  have r: "run [(typingEnv, keyRunes ''a''), (typingEnv, searchResultsMsg [cobra, viper] False None),
        (typingEnv, keyTab), (typingEnv, keyEsc)] (New emptyHistory) = Inr ?stale"
    using run_append[OF run_firstSelected run_single[OF u]] by simp
  have p: "packages ?stale = []" by (simp add: New_def)
  have s: "selected ?stale 0 = Some True" by simp
  from selected_packages_never_out_of_bounds[OF r, of typingEnv] p
  have g: "getSelectedPackages typingEnv ?stale = Inr []" by blast
  from selected_packages_never_out_of_bounds[OF run_firstSelected, of typingEnv]
  have g2: "getSelectedPackages typingEnv firstSelected = Inr [cobra]"
    by (simp add: firstSelected_def twoResults_def typingEnv_def New_def)
  show ?thesis using r p s g g2 by blast
qed

text \<open>
  C8. In the options view of a session, the key \<open>g\<close> (or \<open>G\<close>) builds the install command
  for the selected packages. If the command is not empty, the model is marked to print
  exactly that command, without auto-run, and \<open>Update\<close> returns \<open>tea.Quit\<close>. If it is empty,
  every selected package is installed, the session is back in the search view with the
  info message, nothing is marked for printing and no quit is issued.
\<close>
theorem options_generate_command_key:
  assumes "run evs (New h) = Inr m"
      and "viewState m = ViewOptions"
      and "Type k = KeyRunes"
      and "Runes k = ''g'' \<or> Runes k = ''G''"
  shows "\<exists>sel. getSelectedPackages env m = Inr sel
        \<and> (GetInstallCommand sel \<noteq> [] \<longrightarrow>
             Update env (KeyMsg k) m =
               Inr (m\<lparr>quitWithCommands := True, commandsToPrint := [GetInstallCommand sel],
                      autoRun := False\<rparr>, [Quit]))
        \<and> (GetInstallCommand sel = [] \<longrightarrow>
             (\<forall>pkg\<in>set sel. IsInstalled pkg)
             \<and> (\<exists>m' cmds. Update env (KeyMsg k) m = Inr (m', cmds)
                   \<and> viewState m' = ViewSearch
                   \<and> message m' = ''All selected packages are already installed''
                   \<and> messageType m' = ''info''
                   \<and> quitWithCommands m' = quitWithCommands m
                   \<and> commandsToPrint m' = commandsToPrint m
                   \<and> Quit \<notin> set cmds))"
proof -
  have inv: "session_inv m" using assms(1) by (rule session_inv_reachable)
  obtain sel where sel: "getSelectedPackages env m = Inr sel"
    using getSelectedPackages_eq[OF inv, of env] by blast
  have ne: "Type k \<noteq> KeyEsc" using assms(3) by simp
  have a: "GetInstallCommand sel \<noteq> [] \<longrightarrow>
             Update env (KeyMsg k) m =
               Inr (m\<lparr>quitWithCommands := True, commandsToPrint := [GetInstallCommand sel],
                      autoRun := False\<rparr>, [Quit])"
  proof
    assume c: "GetInstallCommand sel \<noteq> []"
    have "handleOptionsKeys env k m =
            Inr (m\<lparr>quitWithCommands := True, commandsToPrint := [GetInstallCommand sel],
                   autoRun := False\<rparr>, Some Quit)"
      using assms(3,4) c sel by (simp add: handleOptionsKeys_def Let_def)
    then show "Update env (KeyMsg k) m =
               Inr (m\<lparr>quitWithCommands := True, commandsToPrint := [GetInstallCommand sel],
                      autoRun := False\<rparr>, [Quit])"
      using assms(2) by (simp add: Update_def updateSearchInput_def)
  qed
  have b: "GetInstallCommand sel = [] \<longrightarrow>
             (\<forall>pkg\<in>set sel. IsInstalled pkg)
             \<and> (\<exists>m' cmds. Update env (KeyMsg k) m = Inr (m', cmds)
                   \<and> viewState m' = ViewSearch
                   \<and> message m' = ''All selected packages are already installed''
                   \<and> messageType m' = ''info''
                   \<and> quitWithCommands m' = quitWithCommands m
                   \<and> commandsToPrint m' = commandsToPrint m
                   \<and> Quit \<notin> set cmds)"
  proof
    assume c: "GetInstallCommand sel = []"
    let ?m1 = "m\<lparr>message := ''All selected packages are already installed'',
                  messageType := ''info'', viewState := ViewSearch\<rparr>"
    have h: "handleOptionsKeys env k m = Inr (?m1, None)"
      using assms(3,4) c sel by (simp add: handleOptionsKeys_def Let_def)
    have u: "Update env (KeyMsg k) m = Inr (updateSearchInput env (KeyMsg k) ?m1 [])"
      using assms(2) h by (simp add: Update_def)
    obtain m' cmds' where k: "updateSearchInput env (KeyMsg k) ?m1 [] = (m', cmds')"
      "viewState m' = viewState ?m1" "message m' = message ?m1"
      "messageType m' = messageType ?m1" "quitWithCommands m' = quitWithCommands ?m1"
      "commandsToPrint m' = commandsToPrint ?m1" "Quit \<notin> set cmds'"
      using updateSearchInput_keeps[of env "KeyMsg k" ?m1] by blast
    have "\<exists>m' cmds. Update env (KeyMsg k) m = Inr (m', cmds)
                   \<and> viewState m' = ViewSearch
                   \<and> message m' = ''All selected packages are already installed''
                   \<and> messageType m' = ''info''
                   \<and> quitWithCommands m' = quitWithCommands m
                   \<and> commandsToPrint m' = commandsToPrint m
                   \<and> Quit \<notin> set cmds"
      apply (rule exI[of _ m'])
      apply (rule exI[of _ cmds'])
      using u k by simp
    then show "(\<forall>pkg\<in>set sel. IsInstalled pkg)
             \<and> (\<exists>m' cmds. Update env (KeyMsg k) m = Inr (m', cmds)
                   \<and> viewState m' = ViewSearch
                   \<and> message m' = ''All selected packages are already installed''
                   \<and> messageType m' = ''info''
                   \<and> quitWithCommands m' = quitWithCommands m
                   \<and> commandsToPrint m' = commandsToPrint m
                   \<and> Quit \<notin> set cmds)"
      using c GetInstallCommand_empty_iff[of sel] by blast
  qed
  show ?thesis using sel a b by blast
qed

theorem options_generate_command_key_witness:
  "run [(typingEnv, keyRunes ''a''), (typingEnv, searchResultsMsg [cobra, viper] False None),
        (typingEnv, keyTab), (typingEnv, keyEnter)] (New emptyHistory) = Inr optionsOpen
   \<and> viewState optionsOpen = ViewOptions
   \<and> Type \<lparr>Type = KeyRunes, Runes = ''g'', String = ''g''\<rparr> = KeyRunes
   \<and> Runes \<lparr>Type = KeyRunes, Runes = ''g'', String = ''g''\<rparr> = ''g''
   \<and> getSelectedPackages typingEnv optionsOpen = Inr [cobra]
   \<and> GetInstallCommand [cobra] = ''go get github.com/spf13/cobra''
   \<and> Update typingEnv (keyRunes ''g'') optionsOpen =
       Inr (optionsOpen\<lparr>quitWithCommands := True,
              commandsToPrint := [''go get github.com/spf13/cobra''], autoRun := False\<rparr>, [Quit])
   \<and> run [(typingEnv, keyRunes ''a''), (typingEnv, searchResultsMsg [cobra, viper] False None),
        (typingEnv, keyDown), (typingEnv, keyTab), (typingEnv, keyEnter)] (New emptyHistory)
       = Inr optionsOpenInstalled
   \<and> getSelectedPackages typingEnv optionsOpenInstalled = Inr [viper]
   \<and> GetInstallCommand [viper] = []
   \<and> (\<exists>m' cmds. Update typingEnv (keyRunes ''g'') optionsOpenInstalled = Inr (m', cmds)
         \<and> viewState m' = ViewSearch
         \<and> message m' = ''All selected packages are already installed''
         \<and> messageType m' = ''info''
         \<and> quitWithCommands m' = False
         \<and> Quit \<notin> set cmds)"
proof -
  let ?k = "\<lparr>Type = KeyRunes, Runes = ''g'', String = ''g''\<rparr>"
  have v: "viewState optionsOpen = ViewOptions" by (simp add: optionsOpen_def)
  have t: "Type ?k = KeyRunes" by simp
  have r: "Runes ?k = ''g''" by simp
  have r': "Runes ?k = ''g'' \<or> Runes ?k = ''G''" by simp
  have g: "getSelectedPackages typingEnv optionsOpen = Inr [cobra]"
    by (simp add: getSelectedPackages_def optionsOpen_def firstSelected_def twoResults_def
        typingEnv_def New_def)
  have c: "GetInstallCommand [cobra] = ''go get github.com/spf13/cobra''"
    by (simp add: GetInstallCommand_def cobra_def)
  from options_generate_command_key[OF run_optionsOpen v t r', of typingEnv] g c
  have u: "Update typingEnv (keyRunes ''g'') optionsOpen =
       Inr (optionsOpen\<lparr>quitWithCommands := True,
              commandsToPrint := [''go get github.com/spf13/cobra''], autoRun := False\<rparr>, [Quit])"
    by (auto simp: keyRunes_def)
  have v2: "viewState optionsOpenInstalled = ViewOptions" by (simp add: optionsOpenInstalled_def)
  have q2: "quitWithCommands optionsOpenInstalled = False"
    by (simp add: optionsOpenInstalled_def cursorOnSecond_def twoResults_def New_def)
  have g2: "getSelectedPackages typingEnv optionsOpenInstalled = Inr [viper]"
    by (simp add: getSelectedPackages_def optionsOpenInstalled_def cursorOnSecond_def
        twoResults_def typingEnv_def New_def)
  have c2: "GetInstallCommand [viper] = []"
    by (simp add: GetInstallCommand_def viper_def)
  from options_generate_command_key[OF run_optionsOpenInstalled v2 t r', of typingEnv] g2 c2 q2
  have u2: "\<exists>m' cmds. Update typingEnv (keyRunes ''g'') optionsOpenInstalled = Inr (m', cmds)
         \<and> viewState m' = ViewSearch
         \<and> message m' = ''All selected packages are already installed''
         \<and> messageType m' = ''info''
         \<and> quitWithCommands m' = False
         \<and> Quit \<notin> set cmds"
    by (auto simp: keyRunes_def)
  show ?thesis using run_optionsOpen v t r g c u run_optionsOpenInstalled g2 c2 u2 by blast
qed

text \<open>
  C10 (amended). In every state a session can reach, and so after every message, the
  cursor is not negative and, whenever the result list is not empty, it is less than the
  length of the list. The cursor is set to 0 by a search-results message without error
  and by escape-clear; \<open>debounceSearch\<close> on an empty query empties the result list and
  leaves the cursor where it is.
\<close>
theorem cursor_within_results:
  assumes "run evs (New h) = Inr m"
  shows "0 \<le> cursor m
       \<and> (packages m \<noteq> [] \<longrightarrow> cursor m < int (length (packages m)))
       \<and> (\<forall>m' cmds. Update env msg m = Inr (m', cmds) \<longrightarrow>
             0 \<le> cursor m' \<and> (packages m' \<noteq> [] \<longrightarrow> cursor m' < int (length (packages m'))))
       \<and> (\<exists>m' cmds. Update env (searchResultsMsg pkgs cached None) m = Inr (m', cmds)
             \<and> cursor m' = 0)
       \<and> (viewState m = ViewSearch \<and> \<not> showHelp m \<and> searchInput m \<noteq> [] \<and> Type k = KeyEsc
            \<longrightarrow> (\<exists>m' cmds. Update env (KeyMsg k) m = Inr (m', cmds)
                   \<and> packages m' = [] \<and> cursor m' = 0))
       \<and> (searchInput m = [] \<longrightarrow>
             packages (fst (debounceSearch m)) = []
             \<and> cursor (fst (debounceSearch m)) = cursor m)"
proof -
  have inv: "session_inv m" using assms by (rule session_inv_reachable)
  have a: "0 \<le> cursor m \<and> (packages m \<noteq> [] \<longrightarrow> cursor m < int (length (packages m)))"
    using inv by (simp add: session_inv_def)
  have b: "\<forall>m' cmds. Update env msg m = Inr (m', cmds) \<longrightarrow>
             0 \<le> cursor m' \<and> (packages m' \<noteq> [] \<longrightarrow> cursor m' < int (length (packages m')))"
    using session_inv_Update[OF inv] by (simp add: session_inv_def)
  have c: "\<exists>m' cmds. Update env (searchResultsMsg pkgs cached None) m = Inr (m', cmds)
             \<and> cursor m' = 0"
    using Update_searchResults[of env pkgs cached m] by blast
  have d: "viewState m = ViewSearch \<and> \<not> showHelp m \<and> searchInput m \<noteq> [] \<and> Type k = KeyEsc
            \<longrightarrow> (\<exists>m' cmds. Update env (KeyMsg k) m = Inr (m', cmds)
                   \<and> packages m' = [] \<and> cursor m' = 0)"
    using Update_Esc_clear[of m k env] by blast
  have e: "searchInput m = [] \<longrightarrow>
             packages (fst (debounceSearch m)) = []
             \<and> cursor (fst (debounceSearch m)) = cursor m"
    using debounceSearch_empty[of m] by blast
  show ?thesis using a b c d e by blast
qed

theorem cursor_within_results_witness:
  "run [(typingEnv, keyRunes ''a''), (typingEnv, searchResultsMsg [cobra, viper] False None),
        (typingEnv, keyDown)] (New emptyHistory) = Inr cursorOnSecond
   \<and> cursor cursorOnSecond = 1
   \<and> packages cursorOnSecond \<noteq> []
   \<and> (0::int) \<le> cursor cursorOnSecond
   \<and> cursor cursorOnSecond < int (length (packages cursorOnSecond))
   \<and> (\<exists>m' cmds. Update typingEnv (searchResultsMsg [gin] False None) cursorOnSecond = Inr (m', cmds)
             \<and> cursor m' = 0)
   \<and> (\<exists>m' cmds. Update typingEnv keyEsc cursorOnSecond = Inr (m', cmds)
                   \<and> packages m' = [] \<and> cursor m' = 0)"
proof -
  have c1: "cursor cursorOnSecond = 1" by (simp add: cursorOnSecond_def)
  have p: "packages cursorOnSecond \<noteq> []" by (simp add: cursorOnSecond_def twoResults_def)
  have e: "viewState cursorOnSecond = ViewSearch \<and> \<not> showHelp cursorOnSecond
           \<and> searchInput cursorOnSecond \<noteq> []
           \<and> Type \<lparr>Type = KeyEsc, Runes = [], String = ''esc''\<rparr> = KeyEsc"
    by (simp add: cursorOnSecond_def twoResults_def New_def)
  note inst = cursor_within_results[OF run_cursorOnSecond, of typingEnv keyDown "[gin]" False
      "\<lparr>Type = KeyEsc, Runes = [], String = ''esc''\<rparr>"]
  from inst have a: "(0::int) \<le> cursor cursorOnSecond" by blast
  from inst p have b: "cursor cursorOnSecond < int (length (packages cursorOnSecond))" by blast
  from inst have c: "\<exists>m' cmds. Update typingEnv (searchResultsMsg [gin] False None) cursorOnSecond
       = Inr (m', cmds) \<and> cursor m' = 0" by blast
  from inst e have d: "\<exists>m' cmds. Update typingEnv keyEsc cursorOnSecond = Inr (m', cmds)
                   \<and> packages m' = [] \<and> cursor m' = 0"
    unfolding keyEsc_def by blast
  show ?thesis using run_cursorOnSecond c1 p a b c d by blast
qed

text \<open>
  C10 as stated fails where it says that the cursor is reset whenever the result list is
  cleared: with two results and the cursor on the second, a backspace that empties the
  query clears the result list and the cursor stays at 1.
\<close>
theorem cursor_kept_when_query_emptied_counterexample:
  "run [(typingEnv, keyRunes ''a''), (typingEnv, searchResultsMsg [cobra, viper] False None),
        (typingEnv, keyDown)] (New emptyHistory) = Inr cursorOnSecond
   \<and> packages cursorOnSecond = [cobra, viper]
   \<and> cursor cursorOnSecond = 1
   \<and> Update typingEnv keyBackspace cursorOnSecond = Inr ((New emptyHistory)\<lparr>cursor := 1\<rparr>, [])
   \<and> packages ((New emptyHistory)\<lparr>cursor := 1\<rparr>) = []
   \<and> cursor ((New emptyHistory)\<lparr>cursor := 1\<rparr>) = 1"
proof -
  have u: "Update typingEnv keyBackspace cursorOnSecond = Inr ((New emptyHistory)\<lparr>cursor := 1\<rparr>, [])"
    by (simp add: Update_def handleSearchKeys_def updateSearchInput_def debounceSearch_def
      New_def typingEnv_def keyBackspace_def twoResults_def cursorOnSecond_def Let_def)
  show ?thesis
    using run_cursorOnSecond u by (simp add: New_def cursorOnSecond_def twoResults_def)
qed

end
